theory Spec2Isabelle
  imports Main "HOL-Library.Sublist"
begin

section \<open>Data model\<close>

text \<open>
  Times are the millisecond counts that \<^verbatim>\<open>Date.getTime()\<close> returns. The column
  \<^verbatim>\<open>due_date\<close> is \<^verbatim>\<open>timestamptz not null\<close>, so \<^verbatim>\<open>new Date(reminder.due_date)\<close>
  is a valid date and \<open>due_date\<close> is its millisecond count. The dates that the code
  computes from it are built with \<open>new_Date\<close> below.
\<close>

type_synonym timestamp = int

text \<open>
  The columns \<^verbatim>\<open>is_completed\<close> and \<^verbatim>\<open>notification_sent\<close> default to false and the application
  only ever writes true or false to them, so they are booleans here. The \<^verbatim>\<open>preferences\<close>
  column is \<^verbatim>\<open>jsonb\<close>: any JSON value, or null.
\<close>

datatype json =
    JNull
  | JBool bool
  | JNum int
  | JStr string
  | JArr "json list"
  | JObj "(string \<times> json) list"

text \<open>JavaScript truthiness of a JSON value (what \<^verbatim>\<open>!!v\<close> computes).\<close>

fun truthy :: "json \<Rightarrow> bool" where
  "truthy JNull = False"
| "truthy (JBool b) = b"
| "truthy (JNum n) = (n \<noteq> 0)"
| "truthy (JStr s) = (s \<noteq> [])"
| "truthy (JArr xs) = True"
| "truthy (JObj kvs) = True"

text \<open>
  Property access \<^verbatim>\<open>v.k\<close> on a truthy JSON value; \<open>None\<close> is \<^verbatim>\<open>undefined\<close>.
  Only an object carries the notification keys.
\<close>

fun get_prop :: "json \<Rightarrow> string \<Rightarrow> json option" where
  "get_prop (JObj kvs) k = map_of kvs k"
| "get_prop j k = None"

record profile =
  profile_id :: string
  email :: string
  full_name :: string
  preferences :: "json option"

record reminder =
  reminder_id :: string
  user_id :: string
  title :: string
  description :: "string option"
  reminder_type :: string
  due_date :: timestamp
  is_completed :: bool
  notification_sent :: bool

section \<open>Due window (the filter of \<^verbatim>\<open>checkAndSendReminderNotifications\<close>)\<close>

text \<open>
  \<^verbatim>\<open>new Date(ms)\<close> on a number: a time value beyond 8.64e15 milliseconds on either side of
  the epoch gives an Invalid Date, which is \<open>None\<close> here.
\<close>

definition new_Date :: "int \<Rightarrow> timestamp option" where
  "new_Date ms = (if \<bar>ms\<bar> \<le> 8640000000000000 then Some ms else None)"

definition windowStart :: "timestamp \<Rightarrow> timestamp option" where
  "windowStart dueDate = new_Date (dueDate - 2 * 60 * 1000)"

definition windowEnd :: "timestamp \<Rightarrow> timestamp option" where
  "windowEnd dueDate = new_Date (dueDate + 2 * 60 * 1000)"

text \<open>
  \<^verbatim>\<open>now >= windowStart && now <= windowEnd\<close>: a comparison with an Invalid Date compares
  with NaN and is false.
\<close>

definition isDueNow :: "timestamp \<Rightarrow> timestamp \<Rightarrow> bool" where
  "isDueNow now dueDate =
     ((case windowStart dueDate of None \<Rightarrow> False | Some ws \<Rightarrow> now \<ge> ws)
      \<and> (case windowEnd dueDate of None \<Rightarrow> False | Some we \<Rightarrow> now \<le> we))"

text \<open>The callback passed to \<^verbatim>\<open>userReminders.filter\<close>.\<close>

definition dueFilter :: "timestamp \<Rightarrow> reminder \<Rightarrow> bool" where
  "dueFilter now reminder =
     (if is_completed reminder \<or> notification_sent reminder then False
      else isDueNow now (due_date reminder))"

definition dueReminders :: "timestamp \<Rightarrow> reminder list \<Rightarrow> reminder list" where
  "dueReminders now userReminders = filter (dueFilter now) userReminders"

section \<open>Collaborators and program state\<close>

text \<open>
  An awaited call either resolves to a value or rejects (the \<^verbatim>\<open>await\<close> then throws).
  A query of the database client resolves to \<^verbatim>\<open>{ data, error }\<close>.
\<close>

datatype 'a promise = Resolves 'a | Rejects string

record 'a response =
  data :: "'a option"
  error :: "string option"

text \<open>
  How one call to the database collaborator goes wrong, if it does: it reports an error
  in its result, it resolves with neither data nor error, or its promise rejects.
\<close>

datatype fault = NoFault | ErrorResult string | NullData | Rejected string

text \<open>The JSON body that \<^verbatim>\<open>sendEmail\<close> posts (the derived \<^verbatim>\<open>html\<close> field is left out).\<close>

record email_request =
  to :: string
  subject :: string
  firstName :: string
  reminderTitle :: string
  reminderDescription :: string
  dueDate :: timestamp

text \<open>
  What the route \<^verbatim>\<open>/api/send-reminder\<close> does with a request: \<^verbatim>\<open>fetch\<close> rejects,
  \<^verbatim>\<open>response.json()\<close> rejects, or there is a reply with its status and the message
  \<^verbatim>\<open>result.error || result.message || 'Failed to send email'\<close>.
\<close>

datatype api_reply = FetchRejects string | JsonRejects string | Reply nat string

record email_result =
  success :: bool
  email_error :: "string option"

datatype permission = Granted | Denied | Default

text \<open>The environment of one run: the browser and what the collaborators answer.\<close>

record env =
  window_defined :: bool
  supabase_client :: bool
  now :: timestamp
  profiles_query :: "profile list response promise"
  reminders_fault :: "string \<Rightarrow> fault"
  update_fault :: "string \<Rightarrow> fault"
  send_reminder_route :: "email_request \<Rightarrow> api_reply"
  notification_in_window :: bool
  notification_permission :: permission
  document_hasFocus :: bool
  notification_ctor_throws :: bool

text \<open>Calls to the collaborators and to the channel adapters, in the order they are made.\<close>

datatype event =
    SelectProfiles
  | SelectReminders string
  | SelectUnsentReminders string
  | UpdateNotificationSent string
  | PostSendReminder email_request
  | ShowBrowserNotification string string
  | NewNotification string string

text \<open>
  Each recorded call carries the item the loops were working on when it was made. This
  is bookkeeping for the statements below; no branch of the program reads it.
\<close>

datatype subject = WholePass | OfProfile string | OfReminder string

text \<open>The messages written with \<^verbatim>\<open>console.log\<close> and \<^verbatim>\<open>console.error\<close>.\<close>

datatype console =
    OnlyRunsInBrowser
  | SupabaseNotInitialized
  | ErrorFetchingProfiles string
  | NoProfilesFound
  | ErrorFetchingRemindersForUser string string
  | ErrorUpdatingReminder string string
  | NotificationSentAndMarked string
  | FailedToSendNotification string "string option"
  | BrowserNotificationMarked string
  | ErrorSendingNotification string string
  | ErrorInCheckAndSend string
  | NoDesktopNotificationSupport
  | SendEmailFailed nat
  | SendEmailSuccess
  | ErrorFetchingReminders string
  | ErrorCheckingReminders string
  | UnhandledRejection string

text \<open>An entry of the in-app feed of \<^verbatim>\<open>NotificationContext\<close> (random id and creation time left out).\<close>

record notification =
  n_title :: string
  n_message :: string
  n_type :: string
  n_read :: bool

text \<open>
  The state: the \<^verbatim>\<open>reminders\<close> table, the module variables \<^verbatim>\<open>isServiceRunning\<close> and
  \<^verbatim>\<open>triggerNotification\<close> (null, or the callback that \<^verbatim>\<open>NotificationProvider\<close> installs,
  which calls \<^verbatim>\<open>addNotification\<close>), the armed \<^verbatim>\<open>setInterval\<close> timers, the feed, and the
  record of what was done.
\<close>

record state =
  reminders :: "reminder list"
  isServiceRunning :: bool
  triggerNotification :: bool
  intervals :: "nat list"
  notifications :: "notification list"
  calls :: "(subject \<times> event) list"
  console_out :: "console list"
  passes :: nat
  acting_for :: subject

definition emit :: "event \<Rightarrow> state \<Rightarrow> state" where
  "emit e st = st\<lparr>calls := calls st @ [(acting_for st, e)]\<rparr>"

definition log :: "console \<Rightarrow> state \<Rightarrow> state" where
  "log m st = st\<lparr>console_out := console_out st @ [m]\<rparr>"

section \<open>Preference flags\<close>

text \<open>\<^verbatim>\<open>!!(profile.preferences && profile.preferences[key])\<close>\<close>

definition preference_flag :: "json option \<Rightarrow> string \<Rightarrow> bool" where
  "preference_flag prefs key =
     (case prefs of
        None \<Rightarrow> False
      | Some j \<Rightarrow>
          if truthy j then (case get_prop j key of None \<Rightarrow> False | Some v \<Rightarrow> truthy v)
          else False)"

definition emailNotificationsEnabled :: "profile \<Rightarrow> bool" where
  "emailNotificationsEnabled profile = preference_flag (preferences profile) ''email_notifications''"

definition browserNotificationsEnabled :: "profile \<Rightarrow> bool" where
  "browserNotificationsEnabled profile = preference_flag (preferences profile) ''browser_notifications''"

text \<open>\<^verbatim>\<open>profile.full_name ? profile.full_name.split(' ')[0] : 'User'\<close>\<close>

definition firstName_of :: "profile \<Rightarrow> string" where
  "firstName_of profile =
     (if full_name profile = [] then ''User''
      else takeWhile (\<lambda>c. c \<noteq> CHR '' '') (full_name profile))"

section \<open>Channel adapters\<close>

text \<open>
  \<^verbatim>\<open>addNotification\<close> of \<^verbatim>\<open>NotificationContext\<close>: prepend to the feed, then create a
  system notification when permission is granted. The constructor may throw; the
  feed entry is already there.
\<close>

definition addNotification :: "env \<Rightarrow> string \<Rightarrow> string \<Rightarrow> string \<Rightarrow> state \<Rightarrow> string option \<times> state" where
  "addNotification env t m ty st =
     (let st1 = st\<lparr>notifications :=
                   \<lparr>n_title = t, n_message = m, n_type = ty, n_read = False\<rparr> # notifications st\<rparr>
      in if window_defined env \<and> notification_in_window env
            \<and> notification_permission env = Granted
         then (if notification_ctor_throws env then (Some ''Illegal constructor'', st1)
               else (None, emit (NewNotification t m) st1))
         else (None, st1))"

text \<open>
  \<^verbatim>\<open>showBrowserNotification\<close> is \<^verbatim>\<open>async\<close> and is called without \<^verbatim>\<open>await\<close>: whatever is
  thrown inside (the \<^verbatim>\<open>Notification\<close> constructor throws on platforms that only allow
  notifications from a service worker) becomes a rejected promise that nobody handles,
  and the caller goes on. The browser reports such a rejection on the console; that
  report is the entry \<open>UnhandledRejection\<close>.
\<close>

definition showBrowserNotification :: "env \<Rightarrow> string \<Rightarrow> string \<Rightarrow> state \<Rightarrow> state" where
  "showBrowserNotification env t body st =
     (if \<not> window_defined env then st
      else if \<not> notification_in_window env then log NoDesktopNotificationSupport st
      else if notification_permission env = Granted then
        (if document_hasFocus env then st
         else if notification_ctor_throws env then log (UnhandledRejection ''Illegal constructor'') st
         else
           (let st1 = emit (NewNotification t body) st
            in if triggerNotification st1 then
                 (case addNotification env t body ''reminder'' st1 of
                    (Some e, st2) \<Rightarrow> log (UnhandledRejection e) st2
                  | (None, st2) \<Rightarrow> st2)
               else st1))
      else st)"

text \<open>\<^verbatim>\<open>sendEmail\<close> catches everything and always resolves to a result.\<close>

definition sendEmail :: "env \<Rightarrow> email_request \<Rightarrow> state \<Rightarrow> email_result \<times> state" where
  "sendEmail env req st =
     (let st1 = emit (PostSendReminder req) st
      in case send_reminder_route env req of
           FetchRejects e \<Rightarrow> (\<lparr>success = False, email_error = Some e\<rparr>, st1)
         | JsonRejects e \<Rightarrow> (\<lparr>success = False, email_error = Some e\<rparr>, st1)
         | Reply status msg \<Rightarrow>
             if status \<noteq> 200
             then (\<lparr>success = False, email_error = Some msg\<rparr>, log (SendEmailFailed status) st1)
             else (\<lparr>success = True, email_error = None\<rparr>, log SendEmailSuccess st1))"

definition sendReminderNotification ::
  "env \<Rightarrow> string \<Rightarrow> string \<Rightarrow> string \<Rightarrow> string \<Rightarrow> timestamp \<Rightarrow> state \<Rightarrow> email_result \<times> state" where
  "sendReminderNotification env recipient first rTitle rDescription due st =
     sendEmail env
       \<lparr>to = recipient, subject = ''Reminder: '' @ rTitle, firstName = first,
        reminderTitle = rTitle, reminderDescription = rDescription, dueDate = due\<rparr> st"

section \<open>Database calls\<close>

text \<open>\<^verbatim>\<open>supabase.from('reminders').select('*').eq('user_id', profile.id)\<close>\<close>

definition select_reminders :: "env \<Rightarrow> string \<Rightarrow> state \<Rightarrow> reminder list response promise \<times> state" where
  "select_reminders env uid st =
     (let st1 = emit (SelectReminders uid) st
      in case reminders_fault env uid of
           NoFault \<Rightarrow>
             (Resolves \<lparr>data = Some (filter (\<lambda>r. user_id r = uid) (reminders st1)), error = None\<rparr>, st1)
         | ErrorResult e \<Rightarrow> (Resolves \<lparr>data = None, error = Some e\<rparr>, st1)
         | NullData \<Rightarrow> (Resolves \<lparr>data = None, error = None\<rparr>, st1)
         | Rejected e \<Rightarrow> (Rejects e, st1))"

text \<open>\<^verbatim>\<open>supabase.from('reminders').update({ notification_sent: true }).eq('id', reminder.id)\<close>\<close>

definition mark_row :: "string \<Rightarrow> reminder \<Rightarrow> reminder" where
  "mark_row rid r = (if reminder_id r = rid then r\<lparr>notification_sent := True\<rparr> else r)"

definition update_notification_sent :: "env \<Rightarrow> string \<Rightarrow> state \<Rightarrow> unit response promise \<times> state" where
  "update_notification_sent env rid st =
     (let st1 = emit (UpdateNotificationSent rid) st
      in case update_fault env rid of
           NoFault \<Rightarrow>
             (Resolves \<lparr>data = None, error = None\<rparr>,
              st1\<lparr>reminders := map (mark_row rid) (reminders st1)\<rparr>)
         | ErrorResult e \<Rightarrow> (Resolves \<lparr>data = None, error = Some e\<rparr>, st1)
         | NullData \<Rightarrow> (Resolves \<lparr>data = None, error = None\<rparr>, st1)
         | Rejected e \<Rightarrow> (Rejects e, st1))"

section \<open>The evaluation pass\<close>

text \<open>\<^verbatim>\<open>reminder.description || 'You have a reminder due now'\<close> and \<^verbatim>\<open>reminder.description || ''\<close>\<close>

definition notification_body :: "reminder \<Rightarrow> string" where
  "notification_body reminder =
     (case description reminder of
        None \<Rightarrow> ''You have a reminder due now''
      | Some d \<Rightarrow> if d = [] then ''You have a reminder due now'' else d)"

definition email_description :: "reminder \<Rightarrow> string" where
  "email_description reminder = (case description reminder of None \<Rightarrow> [] | Some d \<Rightarrow> d)"

text \<open>Lines 160 to 165: the browser channel, when it is enabled.\<close>

definition browser_step :: "env \<Rightarrow> bool \<Rightarrow> reminder \<Rightarrow> state \<Rightarrow> state" where
  "browser_step env browserOn reminder st =
     (if browserOn then
        showBrowserNotification env (''Reminder: '' @ title reminder) (notification_body reminder)
          (emit (ShowBrowserNotification (''Reminder: '' @ title reminder) (notification_body reminder)) st)
      else st)"

text \<open>
  The update of the flag with its logging. The source has this block twice (lines 180 to
  189 and 195 to 204), with two different messages for the case without error.
\<close>

definition mark_step :: "env \<Rightarrow> reminder \<Rightarrow> console \<Rightarrow> state \<Rightarrow> string option \<times> state" where
  "mark_step env reminder done st =
     (case update_notification_sent env (reminder_id reminder) st of
        (Rejects e, st1) \<Rightarrow> (Some e, st1)
      | (Resolves upd, st1) \<Rightarrow>
          (case error upd of
             Some e \<Rightarrow> (None, log (ErrorUpdatingReminder (reminder_id reminder) e) st1)
           | None \<Rightarrow> (None, log done st1)))"

text \<open>
  The body of the inner \<^verbatim>\<open>try\<close>, for one due reminder. The first component of the
  result is the exception that leaves the block, if any.
\<close>

definition reminder_body ::
  "env \<Rightarrow> profile \<Rightarrow> string \<Rightarrow> bool \<Rightarrow> bool \<Rightarrow> reminder \<Rightarrow> state \<Rightarrow> string option \<times> state" where
  "reminder_body env profile first emailOn browserOn reminder st =
     (let st1 = browser_step env browserOn reminder st
      in if emailOn then
           (case sendReminderNotification env (email profile) first (title reminder)
                   (email_description reminder) (due_date reminder) st1 of
              (result, st2) \<Rightarrow>
                if success result then
                  mark_step env reminder (NotificationSentAndMarked (reminder_id reminder)) st2
                else
                  (None, log (FailedToSendNotification (reminder_id reminder) (email_error result)) st2))
         else
           mark_step env reminder (BrowserNotificationMarked (reminder_id reminder)) st1)"

text \<open>One iteration of \<^verbatim>\<open>for (const reminder of dueReminders)\<close>: the \<^verbatim>\<open>try\<close> with its \<^verbatim>\<open>catch\<close>.\<close>

definition process_reminder ::
  "env \<Rightarrow> profile \<Rightarrow> string \<Rightarrow> bool \<Rightarrow> bool \<Rightarrow> reminder \<Rightarrow> state \<Rightarrow> state" where
  "process_reminder env profile first emailOn browserOn reminder st =
     (case reminder_body env profile first emailOn browserOn reminder
             (st\<lparr>acting_for := OfReminder (reminder_id reminder)\<rparr>) of
        (Some e, st1) \<Rightarrow> log (ErrorSendingNotification (reminder_id reminder) e) st1
      | (None, st1) \<Rightarrow> st1)"

fun reminders_loop ::
  "env \<Rightarrow> profile \<Rightarrow> string \<Rightarrow> bool \<Rightarrow> bool \<Rightarrow> reminder list \<Rightarrow> state \<Rightarrow> state" where
  "reminders_loop env profile first emailOn browserOn [] st = st"
| "reminders_loop env profile first emailOn browserOn (reminder # rest) st =
     reminders_loop env profile first emailOn browserOn rest
       (process_reminder env profile first emailOn browserOn reminder st)"

text \<open>
  The body of \<^verbatim>\<open>for (const profile of usersWithProfiles)\<close>. A rejected reminder query
  is not caught here: the exception leaves the loop.
\<close>

definition profile_body :: "env \<Rightarrow> profile \<Rightarrow> state \<Rightarrow> string option \<times> state" where
  "profile_body env profile st =
     (let emailOn = emailNotificationsEnabled profile;
          browserOn = browserNotificationsEnabled profile
      in if \<not> emailOn \<and> \<not> browserOn then (None, st)
         else
           (case select_reminders env (profile_id profile)
                   (st\<lparr>acting_for := OfProfile (profile_id profile)\<rparr>) of
              (Rejects e, st1) \<Rightarrow> (Some e, st1)
            | (Resolves res, st1) \<Rightarrow>
                (case error res of
                   Some e \<Rightarrow> (None, log (ErrorFetchingRemindersForUser (profile_id profile) e) st1)
                 | None \<Rightarrow>
                     (case data res of
                        None \<Rightarrow> (None, st1)
                      | Some userReminders \<Rightarrow>
                          if userReminders = [] then (None, st1)
                          else if dueReminders (now env) userReminders = [] then (None, st1)
                          else (None, reminders_loop env profile (firstName_of profile) emailOn browserOn
                                        (dueReminders (now env) userReminders) st1)))))"

fun profiles_loop :: "env \<Rightarrow> profile list \<Rightarrow> state \<Rightarrow> string option \<times> state" where
  "profiles_loop env [] st = (None, st)"
| "profiles_loop env (profile # rest) st =
     (case profile_body env profile st of
        (Some e, st1) \<Rightarrow> (Some e, st1)
      | (None, st1) \<Rightarrow> profiles_loop env rest st1)"

text \<open>The body of the outer \<^verbatim>\<open>try\<close>.\<close>

definition pass_body :: "env \<Rightarrow> state \<Rightarrow> string option \<times> state" where
  "pass_body env st =
     (if \<not> supabase_client env then (None, log SupabaseNotInitialized st)
      else
        (let st1 = emit SelectProfiles (st\<lparr>acting_for := WholePass\<rparr>)
         in case profiles_query env of
              Rejects e \<Rightarrow> (Some e, st1)
            | Resolves res \<Rightarrow>
                (case error res of
                   Some e \<Rightarrow> (None, log (ErrorFetchingProfiles e) st1)
                 | None \<Rightarrow>
                     (case data res of
                        None \<Rightarrow> (None, log NoProfilesFound st1)
                      | Some usersWithProfiles \<Rightarrow>
                          if usersWithProfiles = [] then (None, log NoProfilesFound st1)
                          else profiles_loop env usersWithProfiles st1))))"

definition checkAndSendReminderNotifications :: "env \<Rightarrow> state \<Rightarrow> state" where
  "checkAndSendReminderNotifications env st0 =
     (let st = st0\<lparr>passes := passes st0 + 1\<rparr>
      in if \<not> window_defined env then log OnlyRunsInBrowser st
         else
           (case pass_body env st of
              (Some e, st1) \<Rightarrow> log (ErrorInCheckAndSend e) st1
            | (None, st1) \<Rightarrow> st1))"

section \<open>Starting the service\<close>


text \<open>The state of a freshly loaded module, over a given table.\<close>

definition initial_state :: "reminder list \<Rightarrow> state" where
  "initial_state table =
     \<lparr>reminders = table, isServiceRunning = False, triggerNotification = False,
      intervals = [], notifications = [], calls = [], console_out = [], passes = 0,
      acting_for = WholePass\<rparr>"

definition setNotificationTrigger :: "state \<Rightarrow> state" where
  "setNotificationTrigger st = st\<lparr>triggerNotification := True\<rparr>"

section \<open>The reminder check of \<^verbatim>\<open>NotificationContext\<close>\<close>

text \<open>
  \<^verbatim>\<open>.eq('user_id', user.id).eq('is_completed', false).eq('notification_sent', false)\<close>
\<close>

definition select_unsent_reminders ::
  "env \<Rightarrow> string \<Rightarrow> state \<Rightarrow> reminder list response promise \<times> state" where
  "select_unsent_reminders env uid st =
     (let st1 = emit (SelectUnsentReminders uid) st
      in case reminders_fault env uid of
           NoFault \<Rightarrow>
             (Resolves \<lparr>data = Some (filter (\<lambda>r. user_id r = uid \<and> is_completed r = False
                                              \<and> notification_sent r = False) (reminders st1)),
                        error = None\<rparr>, st1)
         | ErrorResult e \<Rightarrow> (Resolves \<lparr>data = None, error = Some e\<rparr>, st1)
         | NullData \<Rightarrow> (Resolves \<lparr>data = None, error = None\<rparr>, st1)
         | Rejected e \<Rightarrow> (Rejects e, st1))"

text \<open>
  The loop of \<^verbatim>\<open>checkReminders\<close>: a reminder due within the next ten minutes gets a feed
  entry and has its flag set; the result of the update is not looked at.
\<close>

fun checkReminders_loop :: "env \<Rightarrow> reminder list \<Rightarrow> state \<Rightarrow> string option \<times> state" where
  "checkReminders_loop env [] st = (None, st)"
| "checkReminders_loop env (reminder # rest) st =
     (let diff = due_date reminder - now env
      in if diff \<le> 600000 \<and> diff > 0 then
           (case addNotification env (''Reminder ('' @ reminder_type reminder @ '')'')
                   (title reminder) ''reminder''
                   (st\<lparr>acting_for := OfReminder (reminder_id reminder)\<rparr>) of
              (Some e, st1) \<Rightarrow> (Some e, st1)
            | (None, st1) \<Rightarrow>
                (case update_notification_sent env (reminder_id reminder) st1 of
                   (Rejects e, st2) \<Rightarrow> (Some e, st2)
                 | (Resolves upd, st2) \<Rightarrow> checkReminders_loop env rest st2))
         else checkReminders_loop env rest st)"

definition checkReminders :: "env \<Rightarrow> string \<Rightarrow> state \<Rightarrow> state" where
  "checkReminders env uid st =
     (case select_unsent_reminders env uid (st\<lparr>acting_for := OfProfile uid\<rparr>) of
        (Rejects e, st1) \<Rightarrow> log (ErrorCheckingReminders e) st1
      | (Resolves res, st1) \<Rightarrow>
          (case error res of
             Some e \<Rightarrow> log (ErrorFetchingReminders e) st1
           | None \<Rightarrow>
               (case checkReminders_loop env (case data res of None \<Rightarrow> [] | Some rs \<Rightarrow> rs) st1 of
                  (Some e, st2) \<Rightarrow> log (ErrorCheckingReminders e) st2
                | (None, st2) \<Rightarrow> st2)))"

section \<open>Vocabulary of the statements\<close>

text \<open>What a run added to the record of calls.\<close>

definition new_calls :: "state \<Rightarrow> state \<Rightarrow> (subject \<times> event) list" where
  "new_calls st st' = drop (length (calls st)) (calls st')"

text \<open>A row after a run: as it was, or with its flag set.\<close>

definition marked :: "reminder \<Rightarrow> reminder \<Rightarrow> bool" where
  "marked r r' = (r' = r \<or> r' = r\<lparr>notification_sent := True\<rparr>)"

text \<open>
  \<open>within P st st'\<close>: from \<open>st\<close> to \<open>st'\<close> the record of calls and the console only grew,
  every added call satisfies \<open>P\<close>, every row of the table is as it was or has its flag
  set, and the module variables, the timers and the pass counter are as they were.
\<close>

definition within :: "(subject \<times> event \<Rightarrow> bool) \<Rightarrow> state \<Rightarrow> state \<Rightarrow> bool" where
  "within P st st' =
     (prefix (calls st) (calls st') \<and> list_all P (new_calls st st')
      \<and> prefix (console_out st) (console_out st')
      \<and> list_all2 marked (reminders st) (reminders st')
      \<and> isServiceRunning st' = isServiceRunning st
      \<and> triggerNotification st' = triggerNotification st
      \<and> intervals st' = intervals st
      \<and> passes st' = passes st)"

text \<open>A system notification created while working on \<open>s\<close>.\<close>

definition is_popup :: "subject \<Rightarrow> subject \<times> event \<Rightarrow> bool" where
  "is_popup s c = (fst c = s \<and> (case snd c of NewNotification t b \<Rightarrow> True | _ \<Rightarrow> False))"

text \<open>A call made for the reminder \<open>rid\<close>: a channel call, or the update of that very row.\<close>

definition for_reminder :: "string \<Rightarrow> subject \<times> event \<Rightarrow> bool" where
  "for_reminder rid c =
     (fst c = OfReminder rid \<and>
      (case snd c of
         UpdateNotificationSent x \<Rightarrow> x = rid
       | ShowBrowserNotification t b \<Rightarrow> True
       | NewNotification t b \<Rightarrow> True
       | PostSendReminder q \<Rightarrow> True
       | _ \<Rightarrow> False))"

text \<open>A call made for some row of \<open>tbl\<close> that passes the due filter at time \<open>t\<close>.\<close>

definition due_call :: "timestamp \<Rightarrow> reminder list \<Rightarrow> subject \<times> event \<Rightarrow> bool" where
  "due_call t tbl c = list_ex (\<lambda>r. dueFilter t r \<and> for_reminder (reminder_id r) c) tbl"

text \<open>The calls a pass can make: the two queries, and calls for due rows.\<close>

definition pass_call :: "timestamp \<Rightarrow> reminder list \<Rightarrow> subject \<times> event \<Rightarrow> bool" where
  "pass_call t tbl c =
     (c = (WholePass, SelectProfiles)
      \<or> (case c of (OfProfile u, SelectReminders v) \<Rightarrow> u = v | _ \<Rightarrow> False)
      \<or> due_call t tbl c)"

text \<open>A call that is neither made for the reminder \<open>i\<close> nor an update of its row.\<close>

definition not_for :: "string \<Rightarrow> subject \<times> event \<Rightarrow> bool" where
  "not_for i c = (fst c \<noteq> OfReminder i \<and> snd c \<noteq> UpdateNotificationSent i)"

text \<open>Preferences with both channels switched off explicitly.\<close>

definition all_disabled :: json where
  "all_disabled = JObj [(''email_notifications'', JBool False), (''browser_notifications'', JBool False)]"

text \<open>The request that the pass sends for a reminder, and what the email adapter reports for it.\<close>

definition reminder_request :: "profile \<Rightarrow> string \<Rightarrow> reminder \<Rightarrow> email_request" where
  "reminder_request p f r =
     \<lparr>to = email p, subject = ''Reminder: '' @ title r, firstName = f,
      reminderTitle = title r, reminderDescription = email_description r, dueDate = due_date r\<rparr>"

definition email_outcome :: "env \<Rightarrow> profile \<Rightarrow> string \<Rightarrow> reminder \<Rightarrow> email_result" where
  "email_outcome env p f r =
     fst (sendReminderNotification env (email p) f (title r) (email_description r) (due_date r)
            (initial_state []))"

text \<open>The three calls a pass can make for a due reminder.\<close>

definition browser_call :: "reminder \<Rightarrow> subject \<times> event" where
  "browser_call r =
     (OfReminder (reminder_id r),
      ShowBrowserNotification (''Reminder: '' @ title r) (notification_body r))"

definition email_call :: "profile \<Rightarrow> string \<Rightarrow> reminder \<Rightarrow> subject \<times> event" where
  "email_call p f r = (OfReminder (reminder_id r), PostSendReminder (reminder_request p f r))"

definition update_call :: "reminder \<Rightarrow> subject \<times> event" where
  "update_call r = (OfReminder (reminder_id r), UpdateNotificationSent (reminder_id r))"

text \<open>
  The calls of one loop iteration, in order: the browser call with the system
  notifications \<open>pops\<close> it led to, then the email request followed by the update when the
  adapter reported success, or the update alone when email is off.
\<close>

definition reminder_calls ::
  "env \<Rightarrow> profile \<Rightarrow> string \<Rightarrow> bool \<Rightarrow> bool \<Rightarrow> reminder \<Rightarrow> (subject \<times> event) list \<Rightarrow> (subject \<times> event) list" where
  "reminder_calls env p f e b r pops =
     (if b then browser_call r # pops else [])
       @ (if e then email_call p f r # (if success (email_outcome env p f r) then [update_call r] else [])
          else [update_call r])"

text \<open>The feed entry that the installed trigger adds for a title and a body.\<close>

definition feed_entry :: "string \<Rightarrow> string \<Rightarrow> notification" where
  "feed_entry t body = \<lparr>n_title = t, n_message = body, n_type = ''reminder'', n_read = False\<rparr>"

text \<open>The conditions under which \<^verbatim>\<open>showBrowserNotification\<close> returns before creating a notification.\<close>

definition popup_suppressed :: "env \<Rightarrow> bool" where
  "popup_suppressed env =
     (\<not> window_defined env \<or> \<not> notification_in_window env
      \<or> notification_permission env \<noteq> Granted \<or> document_hasFocus env)"


text \<open>A profile that the pass does not skip.\<close>

definition profile_enabled :: "profile \<Rightarrow> bool" where
  "profile_enabled p = (emailNotificationsEnabled p \<or> browserNotificationsEnabled p)"

text \<open>The reminder query made for a profile.\<close>

definition reminders_call :: "profile \<Rightarrow> subject \<times> event" where
  "reminders_call p = (OfProfile (profile_id p), SelectReminders (profile_id p))"

text \<open>A call that writes the flag.\<close>

definition is_update :: "subject \<times> event \<Rightarrow> bool" where
  "is_update c = (case snd c of UpdateNotificationSent i \<Rightarrow> True | _ \<Rightarrow> False)"

text \<open>The feed entry that \<^verbatim>\<open>checkReminders\<close> adds for a reminder.\<close>

definition context_entry :: "reminder \<Rightarrow> notification" where
  "context_entry r =
     \<lparr>n_title = ''Reminder ('' @ reminder_type r @ '')'', n_message = title r,
      n_type = ''reminder'', n_read = False\<rparr>"

text \<open>Both bounds of the window around a due date are dates that \<open>new_Date\<close> can build.\<close>

definition window_in_range :: "timestamp \<Rightarrow> bool" where
  "window_in_range d =
     (\<bar>d - 120 * 1000\<bar> \<le> 8640000000000000 \<and> \<bar>d + 120 * 1000\<bar> \<le> 8640000000000000)"

text \<open>The reminder query of a profile rejects.\<close>

definition fetch_rejects :: "env \<Rightarrow> profile \<Rightarrow> bool" where
  "fetch_rejects env q = (case reminders_fault env (profile_id q) of Rejected e \<Rightarrow> True | _ \<Rightarrow> False)"

text \<open>
  The profile loop gets to \<open>p\<close>: it is in the list, and no enabled profile listed before
  it has a reminder query that rejects.
\<close>

definition reached :: "env \<Rightarrow> profile list \<Rightarrow> profile \<Rightarrow> bool" where
  "reached env ps p =
     (p \<in> set ps
      \<and> list_all (\<lambda>q. \<not> (profile_enabled q \<and> fetch_rejects env q)) (takeWhile (\<lambda>q. q \<noteq> p) ps))"

text \<open>
  An evaluation pass reaches the reminder \<open>r\<close> through its owner \<open>p\<close>: it runs in a
  browser with a database client, the profile query answers with the list \<open>ps\<close>, ids are
  keys (no two profiles and no two rows share one), the loop gets to \<open>p\<close>, which has a
  channel enabled and whose reminder query answers, and \<open>r\<close> is a row of \<open>p\<close> that passes
  the due filter.
\<close>

definition pass_reaches :: "env \<Rightarrow> state \<Rightarrow> profile list \<Rightarrow> profile \<Rightarrow> reminder \<Rightarrow> bool" where
  "pass_reaches env st ps p r =
     (window_defined env \<and> supabase_client env
      \<and> profiles_query env = Resolves \<lparr>data = Some ps, error = None\<rparr>
      \<and> distinct (map profile_id ps) \<and> reached env ps p
      \<and> profile_enabled p \<and> reminders_fault env (profile_id p) = NoFault
      \<and> distinct (map reminder_id (reminders st))
      \<and> r \<in> set (reminders st) \<and> user_id r = profile_id p \<and> dueFilter (now env) r)"

section \<open>Sample data\<close>

definition ada :: profile where
  "ada = \<lparr>profile_id = ''u1'', email = ''ada@example.org'', full_name = ''Ada Lovelace'',
          preferences = Some (JObj [(''email_notifications'', JBool True),
                                    (''browser_notifications'', JBool False)])\<rparr>"

definition bob :: profile where
  "bob = \<lparr>profile_id = ''u2'', email = ''bob@example.org'', full_name = ''Bob'',
          preferences = Some (JObj [(''email_notifications'', JBool False),
                                    (''browser_notifications'', JBool True)])\<rparr>"

definition eve :: profile where
  "eve = \<lparr>profile_id = ''u3'', email = ''eve@example.org'', full_name = ''Eve'',
          preferences = Some (JObj [(''theme'', JStr ''dark'')])\<rparr>"

definition pay_rent :: reminder where
  "pay_rent = \<lparr>reminder_id = ''r1'', user_id = ''u1'', title = ''Pay rent'', description = None,
               reminder_type = ''personal'', due_date = 1000000, is_completed = False,
               notification_sent = False\<rparr>"

definition call_home :: reminder where
  "call_home = \<lparr>reminder_id = ''r2'', user_id = ''u2'', title = ''Call home'',
                description = Some ''before eight'', reminder_type = ''personal'',
                due_date = 1000000, is_completed = False, notification_sent = False\<rparr>"

text \<open>A browser one minute after both reminders are due, with every collaborator answering.\<close>

definition browser_env :: env where
  "browser_env =
     \<lparr>window_defined = True, supabase_client = True, now = 1060000,
      profiles_query = Resolves \<lparr>data = Some [ada, bob], error = None\<rparr>,
      reminders_fault = (\<lambda>u. NoFault), update_fault = (\<lambda>r. NoFault),
      send_reminder_route = (\<lambda>q. Reply 200 []),
      notification_in_window = True, notification_permission = Granted,
      document_hasFocus = False, notification_ctor_throws = False\<rparr>"



text \<open>Five minutes before the reminders are due: before the window of the pass opens.\<close>

definition early_env :: env where
  "early_env = browser_env\<lparr>now := 700000\<rparr>"

text \<open>The email route answers with a server error; everything else answers.\<close>

definition mail_down_env :: env where
  "mail_down_env = browser_env\<lparr>send_reminder_route := (\<lambda>q. Reply 500 ''mail down'')\<rparr>"

section \<open>How a run extends the state\<close>

text \<open>
  Every function of the pass is shown to stay \<open>within\<close> a set of calls: first the
  adapters and the database calls, then the loop bodies and the loops, then the pass.
\<close>

lemma list_all2_marked_refl: "list_all2 marked xs xs"
  by (simp add: list_all2_refl marked_def)

lemma marked_trans: "marked a b \<Longrightarrow> marked b c \<Longrightarrow> marked a c"
  by (auto simp: marked_def)

lemma list_all2_marked_trans:
  "list_all2 marked xs ys \<Longrightarrow> list_all2 marked ys zs \<Longrightarrow> list_all2 marked xs zs"
  by (erule (1) list_all2_trans[rotated 1]) (rule marked_trans)

lemma list_all2_marked_map: "list_all2 marked xs (map (mark_row rid) xs)"
  by (simp add: list_all2_map2 list_all2_refl marked_def mark_row_def)

lemma within_refl: "within P st st"
  by (simp add: within_def new_calls_def list_all2_marked_refl)

lemma within_trans:
  assumes "within P st st1" and "within P st1 st2"
  shows "within P st st2"
proof -
  from assms obtain xs ys where xs: "calls st1 = calls st @ xs" and ys: "calls st2 = calls st1 @ ys"
    by (auto simp: within_def prefix_def)
  from assms have "list_all P xs" "list_all P ys"
    by (simp_all add: within_def new_calls_def xs ys)
  then have "list_all P (new_calls st st2)"
    by (simp add: new_calls_def xs ys)
  moreover have "prefix (calls st) (calls st2)"
    by (simp add: xs ys)
  moreover have "prefix (console_out st) (console_out st2)"
    using assms by (auto simp: within_def prefix_def)
  moreover have "list_all2 marked (reminders st) (reminders st2)"
    using assms by (auto simp: within_def intro: list_all2_marked_trans)
  ultimately show ?thesis
    using assms by (simp add: within_def)
qed

lemma within_mono: "within P st st' \<Longrightarrow> (\<And>c. P c \<Longrightarrow> Q c) \<Longrightarrow> within Q st st'"
  by (auto simp: within_def list_all_iff)

lemma within_emit: "P (acting_for st, e) \<Longrightarrow> within P st (emit e st)"
  by (simp add: within_def emit_def new_calls_def list_all2_marked_refl)

lemma within_log: "within P st (log m st)"
  by (simp add: within_def log_def new_calls_def list_all2_marked_refl)

lemma within_acting: "within P (st\<lparr>acting_for := s\<rparr>) st' \<Longrightarrow> within P st st'"
  by (simp add: within_def new_calls_def)

lemma acting_for_emit [simp]: "acting_for (emit e st) = acting_for st"
  by (simp add: emit_def)

lemma acting_for_log [simp]: "acting_for (log m st) = acting_for st"
  by (simp add: log_def)

lemma addNotification_within:
  "within (is_popup (acting_for st)) st (snd (addNotification env t m ty st))"
  by (simp add: addNotification_def within_def new_calls_def emit_def is_popup_def list_all2_marked_refl Let_def)

lemma addNotification_acting [simp]:
  "acting_for (snd (addNotification env t m ty st)) = acting_for st"
  by (simp add: addNotification_def Let_def)

lemma showBrowserNotification_within:
  "within (is_popup (acting_for st)) st (showBrowserNotification env t b st)"
  by (simp add: showBrowserNotification_def within_def new_calls_def emit_def log_def is_popup_def
      addNotification_def Let_def list_all2_marked_refl)

lemma showBrowserNotification_acting [simp]:
  "acting_for (showBrowserNotification env t b st) = acting_for st"
  by (simp add: showBrowserNotification_def addNotification_def Let_def split: prod.splits)

lemma sendEmail_within:
  "P (acting_for st, PostSendReminder req) \<Longrightarrow> within P st (snd (sendEmail env req st))"
  by (simp add: sendEmail_def within_def new_calls_def emit_def log_def Let_def list_all2_marked_refl
      split: api_reply.splits)

lemma sendEmail_acting [simp]: "acting_for (snd (sendEmail env req st)) = acting_for st"
  by (simp add: sendEmail_def Let_def split: api_reply.splits)

lemma update_within:
  "P (acting_for st, UpdateNotificationSent rid) \<Longrightarrow>
   within P st (snd (update_notification_sent env rid st))"
  by (simp add: update_notification_sent_def within_def new_calls_def emit_def Let_def
      list_all2_marked_refl list_all2_marked_map split: fault.splits)

lemma select_reminders_within:
  "P (acting_for st, SelectReminders uid) \<Longrightarrow> within P st (snd (select_reminders env uid st))"
  by (simp add: select_reminders_def within_def new_calls_def emit_def Let_def
      list_all2_marked_refl split: fault.splits)

lemma sendReminderNotification_within:
  "(\<And>q. P (acting_for st, PostSendReminder q)) \<Longrightarrow>
   within P st (snd (sendReminderNotification env a f t d due st))"
  by (simp add: sendReminderNotification_def sendEmail_within)

lemma sendReminderNotification_acting [simp]:
  "acting_for (snd (sendReminderNotification env a f t d due st)) = acting_for st"
  by (simp add: sendReminderNotification_def)

lemma update_acting [simp]:
  "acting_for (snd (update_notification_sent env rid st)) = acting_for st"
  by (simp add: update_notification_sent_def Let_def emit_def split: fault.splits)

lemma browser_step_within:
  "acting_for st = OfReminder (reminder_id r) \<Longrightarrow>
   within (for_reminder (reminder_id r)) st (browser_step env b r st)"
  unfolding browser_step_def
  by (auto simp: within_refl for_reminder_def is_popup_def split: event.splits
      intro!: within_trans[OF within_emit within_mono[OF showBrowserNotification_within]])

lemma browser_step_acting [simp]: "acting_for (browser_step env b r st) = acting_for st"
  by (simp add: browser_step_def)

lemma mark_step_within:
  "acting_for st = OfReminder (reminder_id r) \<Longrightarrow>
   within (for_reminder (reminder_id r)) st (snd (mark_step env r m st))"
  unfolding mark_step_def
  by (auto simp: case_prod_beta for_reminder_def split: promise.splits option.splits
      intro!: update_within within_trans[OF _ within_log])

lemma reminder_body_within:
  assumes "acting_for st = OfReminder (reminder_id r)"
  shows "within (for_reminder (reminder_id r)) st (snd (reminder_body env p f e b r st))"
proof -
  let ?P = "for_reminder (reminder_id r)"
  let ?st1 = "browser_step env b r st"
  let ?st2 = "snd (sendReminderNotification env (email p) f (title r) (email_description r) (due_date r) ?st1)"
  have w1: "within ?P st ?st1"
    using assms by (rule browser_step_within)
  have w2: "within ?P ?st1 ?st2"
    by (rule sendReminderNotification_within) (simp add: for_reminder_def assms)
  have w12: "within ?P st ?st2"
    using w1 w2 by (rule within_trans)
  have m1: "within ?P st (snd (mark_step env r m ?st1))" for m
    by (rule within_trans[OF w1 mark_step_within]) (simp add: assms)
  have m2: "within ?P st (snd (mark_step env r m ?st2))" for m
    by (rule within_trans[OF w12 mark_step_within]) (simp add: assms)
  have l2: "within ?P st (log m ?st2)" for m
    by (rule within_trans[OF w12 within_log])
  show ?thesis
    by (simp add: reminder_body_def Let_def case_prod_beta m1 m2 l2)
qed

lemma process_reminder_within:
  "within (for_reminder (reminder_id r)) st (process_reminder env p f e b r st)"
proof -
  let ?s = "st\<lparr>acting_for := OfReminder (reminder_id r)\<rparr>"
  have "within (for_reminder (reminder_id r)) ?s (snd (reminder_body env p f e b r ?s))"
    by (rule reminder_body_within) simp
  then have "within (for_reminder (reminder_id r)) st (snd (reminder_body env p f e b r ?s))"
    by (rule within_acting)
  then show ?thesis
    by (auto simp: process_reminder_def case_prod_beta split: option.splits
        intro: within_trans[OF _ within_log])
qed

lemma reminders_loop_within:
  "within (\<lambda>c. \<exists>r\<in>set rs. for_reminder (reminder_id r) c) st (reminders_loop env p f e b rs st)"
proof (induction rs arbitrary: st)
  case Nil
  show ?case by (simp add: within_refl)
next
  case (Cons r rs)
  have "within (\<lambda>c. \<exists>x\<in>set (r # rs). for_reminder (reminder_id x) c) st (process_reminder env p f e b r st)"
    by (rule within_mono[OF process_reminder_within]) simp
  moreover have "within (\<lambda>c. \<exists>x\<in>set (r # rs). for_reminder (reminder_id x) c)
       (process_reminder env p f e b r st)
       (reminders_loop env p f e b rs (process_reminder env p f e b r st))"
    by (rule within_mono[OF Cons.IH]) simp
  ultimately show ?case
    by (simp add: within_trans)
qed

lemma select_reminders_table [simp]:
  "reminders (snd (select_reminders env u st)) = reminders st"
  by (simp add: select_reminders_def Let_def emit_def split: fault.splits)

lemma select_reminders_acting [simp]:
  "acting_for (snd (select_reminders env u st)) = acting_for st"
  by (simp add: select_reminders_def Let_def split: fault.splits)

lemma select_reminders_data:
  "fst (select_reminders env u st) = Resolves res \<Longrightarrow> data res = Some rs \<Longrightarrow>
   rs = filter (\<lambda>r. user_id r = u) (reminders st)"
  by (auto simp: select_reminders_def Let_def emit_def split: fault.splits)

lemma marked_due_subset:
  "list_all2 marked xs ys \<Longrightarrow> set (dueReminders t ys) \<subseteq> set (dueReminders t xs)"
proof
  fix r assume a: "list_all2 marked xs ys" and "r \<in> set (dueReminders t ys)"
  then have r: "r \<in> set ys" "dueFilter t r"
    by (simp_all add: dueReminders_def)
  from r(1) obtain i where i: "i < length ys" "ys ! i = r"
    by (auto simp: in_set_conv_nth)
  with a have "i < length xs" "marked (xs ! i) r"
    by (auto simp: list_all2_conv_all_nth)
  then obtain x where x: "x \<in> set xs" "marked x r"
    using nth_mem by blast
  from r(2) have "\<not> notification_sent r"
    by (simp add: dueFilter_def split: if_splits)
  with x(2) have "r = x"
    by (auto simp: marked_def)
  with x(1) r(2) show "r \<in> set (dueReminders t xs)"
    by (simp add: dueReminders_def)
qed

lemma profile_body_within:
  "within (pass_call (now env) (reminders st)) st (snd (profile_body env p st))"
proof -
  let ?s0 = "st\<lparr>acting_for := OfProfile (profile_id p)\<rparr>"
  let ?sel = "select_reminders env (profile_id p) ?s0"
  let ?P = "pass_call (now env) (reminders st)"
  have w1: "within ?P st (snd ?sel)"
    by (rule within_acting[OF select_reminders_within]) (simp add: pass_call_def)
  have loop: "within ?P st
      (reminders_loop env p f e b (dueReminders (now env) rs) (snd ?sel))"
    if "fst ?sel = Resolves res" "data res = Some rs" for res rs f e b
  proof -
    have rs: "rs = filter (\<lambda>r. user_id r = profile_id p) (reminders st)"
      using select_reminders_data[OF that] by simp
    have "within ?P (snd ?sel) (reminders_loop env p f e b (dueReminders (now env) rs) (snd ?sel))"
      by (rule within_mono[OF reminders_loop_within])
         (auto simp: pass_call_def due_call_def list_ex_iff dueReminders_def rs)
    with w1 show ?thesis by (rule within_trans)
  qed
  show ?thesis
    using w1 loop
    by (auto simp: profile_body_def Let_def case_prod_beta within_refl
        split: promise.splits option.splits intro: within_trans[OF _ within_log])
qed

lemma pass_call_mono:
  "set (dueReminders t tbl) \<subseteq> set T \<Longrightarrow> pass_call t tbl c \<Longrightarrow> pass_call t T c"
  by (auto simp: pass_call_def due_call_def list_ex_iff dueReminders_def)

lemma profiles_loop_within:
  "set (dueReminders (now env) (reminders st)) \<subseteq> set T \<Longrightarrow>
   within (pass_call (now env) T) st (snd (profiles_loop env ps st))"
proof (induction ps arbitrary: st)
  case Nil
  show ?case by (simp add: within_refl)
next
  case (Cons p ps)
  let ?st1 = "snd (profile_body env p st)"
  have w1: "within (pass_call (now env) T) st ?st1"
    by (rule within_mono[OF profile_body_within]) (rule pass_call_mono[OF Cons.prems])
  then have "list_all2 marked (reminders st) (reminders ?st1)"
    by (simp add: within_def)
  then have "set (dueReminders (now env) (reminders ?st1)) \<subseteq> set T"
    using Cons.prems by (blast dest: marked_due_subset)
  then have "within (pass_call (now env) T) ?st1 (snd (profiles_loop env ps ?st1))"
    by (rule Cons.IH)
  with w1 have "within (pass_call (now env) T) st (snd (profiles_loop env ps ?st1))"
    by (rule within_trans)
  with w1 show ?case
    by (simp add: case_prod_beta split: option.splits)
qed

lemma pass_body_within:
  "within (pass_call (now env) (reminders st)) st (snd (pass_body env st))"
proof -
  let ?st1 = "emit SelectProfiles (st\<lparr>acting_for := WholePass\<rparr>)"
  let ?P = "pass_call (now env) (reminders st)"
  have w1: "within ?P st ?st1"
    by (rule within_acting[OF within_emit]) (simp add: pass_call_def)
  have "within ?P ?st1 (snd (profiles_loop env ps ?st1))" for ps
    by (rule profiles_loop_within) (auto simp: emit_def dueReminders_def)
  with w1 have "within ?P st (snd (profiles_loop env ps ?st1))" for ps
    by (rule within_trans)
  with w1 show ?thesis
    by (auto simp: pass_body_def Let_def within_log split: promise.splits option.splits
        intro: within_trans[OF _ within_log])
qed

lemma pass_within:
  "within (pass_call (now env) (reminders st)) (st\<lparr>passes := passes st + 1\<rparr>)
     (checkAndSendReminderNotifications env st)"
proof -
  let ?s = "st\<lparr>passes := passes st + 1\<rparr>"
  have "within (pass_call (now env) (reminders ?s)) ?s (snd (pass_body env ?s))"
    by (rule pass_body_within)
  then show ?thesis
    by (auto simp: checkAndSendReminderNotifications_def Let_def case_prod_beta within_log
        split: option.splits intro: within_trans[OF _ within_log])
qed

lemma pass_call_not_for:
  assumes "\<forall>r\<in>set tbl. reminder_id r = i \<longrightarrow> \<not> dueFilter t r"
    and "pass_call t tbl c"
  shows "not_for i c"
proof (cases c)
  case (Pair s e)
  show ?thesis
    using assms unfolding Pair
    by (cases s; cases e)
       (auto simp: pass_call_def due_call_def list_ex_iff for_reminder_def not_for_def)
qed

lemma pass_calls_only_for_due:
  assumes "\<forall>r\<in>set (reminders st). reminder_id r = i \<longrightarrow> \<not> dueFilter (now env) r"
  shows "list_all (not_for i) (new_calls st (checkAndSendReminderNotifications env st))"
proof -
  have "within (not_for i) (st\<lparr>passes := passes st + 1\<rparr>) (checkAndSendReminderNotifications env st)"
    by (rule within_mono[OF pass_within]) (rule pass_call_not_for[OF assms])
  then show ?thesis
    by (simp add: within_def new_calls_def)
qed

lemma profile_body_disabled:
  "\<not> emailNotificationsEnabled p \<Longrightarrow> \<not> browserNotificationsEnabled p \<Longrightarrow>
   profile_body env p st = (None, st)"
  by (simp add: profile_body_def)

lemma profiles_loop_filter:
  "profiles_loop env ps st =
   profiles_loop env (filter (\<lambda>p. emailNotificationsEnabled p \<or> browserNotificationsEnabled p) ps) st"
  by (induction ps arbitrary: st) (auto simp: profile_body_disabled split: prod.splits option.splits)

lemma preference_flag_missing:
  "prefs = None \<or> prefs = Some JNull \<or> (\<exists>kvs. prefs = Some (JObj kvs) \<and> map_of kvs key = None)
   \<Longrightarrow> \<not> preference_flag prefs key"
  by (auto simp: preference_flag_def)

section \<open>The calls of one iteration\<close>

text \<open>
  The exact calls and the exact table after one loop iteration, and where the calls of a
  due reminder sit in the record of its profile.
\<close>

lemma calls_log [simp]: "calls (log m st) = calls st"
  by (simp add: log_def)

lemma reminders_log [simp]: "reminders (log m st) = reminders st"
  by (simp add: log_def)

lemma reminders_emit [simp]: "reminders (emit e st) = reminders st"
  by (simp add: emit_def)

lemma email_outcome_eq:
  "fst (sendReminderNotification env (email p) f (title r) (email_description r) (due_date r) st)
   = email_outcome env p f r"
  by (simp add: email_outcome_def sendReminderNotification_def sendEmail_def Let_def
      split: api_reply.splits)

lemma sendReminderNotification_calls:
  "calls (snd (sendReminderNotification env (email p) f (title r) (email_description r) (due_date r) st))
   = calls st @ [(acting_for st, PostSendReminder (reminder_request p f r))]"
  by (simp add: sendReminderNotification_def sendEmail_def Let_def emit_def reminder_request_def
      split: api_reply.splits)

lemma sendReminderNotification_table [simp]:
  "reminders (snd (sendReminderNotification env a f t d due st)) = reminders st"
  by (simp add: sendReminderNotification_def sendEmail_def Let_def split: api_reply.splits)

lemma mark_step_calls:
  "calls (snd (mark_step env r m st)) = calls st @ [(acting_for st, UpdateNotificationSent (reminder_id r))]"
  by (simp add: mark_step_def update_notification_sent_def Let_def emit_def
      split: fault.splits)

lemma mark_step_table:
  "reminders (snd (mark_step env r m st)) =
     (if update_fault env (reminder_id r) = NoFault then map (mark_row (reminder_id r)) (reminders st)
      else reminders st)"
  by (simp add: mark_step_def update_notification_sent_def Let_def emit_def
      split: fault.splits)

lemma showBrowserNotification_table [simp]:
  "reminders (showBrowserNotification env t b st) = reminders st"
  by (simp add: showBrowserNotification_def addNotification_def Let_def emit_def)

lemma browser_step_table [simp]: "reminders (browser_step env b r st) = reminders st"
  by (simp add: browser_step_def)

lemma browser_step_calls:
  assumes "acting_for st = OfReminder (reminder_id r)"
  shows "\<exists>pops. list_all (is_popup (OfReminder (reminder_id r))) pops
           \<and> calls (browser_step env b r st) = calls st @ (if b then browser_call r # pops else [])"
proof (cases b)
  case False
  then show ?thesis by (auto simp: browser_step_def intro: exI[of _ "[]"])
next
  case True
  let ?s = "emit (ShowBrowserNotification (''Reminder: '' @ title r) (notification_body r)) st"
  have "within (is_popup (acting_for ?s)) ?s
          (showBrowserNotification env (''Reminder: '' @ title r) (notification_body r) ?s)"
    by (rule showBrowserNotification_within)
  then obtain pops where
    "calls (showBrowserNotification env (''Reminder: '' @ title r) (notification_body r) ?s) = calls ?s @ pops"
    "list_all (is_popup (OfReminder (reminder_id r))) pops"
    by (auto simp: within_def prefix_def new_calls_def assms)
  then show ?thesis
    using True by (auto simp: browser_step_def emit_def browser_call_def assms)
qed

lemma process_reminder_via_body:
  "calls (process_reminder env p f e b r st)
     = calls (snd (reminder_body env p f e b r (st\<lparr>acting_for := OfReminder (reminder_id r)\<rparr>)))"
  "reminders (process_reminder env p f e b r st)
     = reminders (snd (reminder_body env p f e b r (st\<lparr>acting_for := OfReminder (reminder_id r)\<rparr>)))"
  by (simp_all add: process_reminder_def case_prod_beta split: option.splits)

lemma reminder_body_calls:
  assumes "acting_for st = OfReminder (reminder_id r)"
  shows "calls (snd (reminder_body env p f e b r st)) =
         calls (browser_step env b r st)
           @ (if e then email_call p f r # (if success (email_outcome env p f r) then [update_call r] else [])
              else [update_call r])"
  by (simp add: reminder_body_def Let_def case_prod_beta email_outcome_eq
        mark_step_calls sendReminderNotification_calls email_call_def update_call_def assms)

lemma reminder_body_table:
  "reminders (snd (reminder_body env p f e b r st)) =
     (if (e \<longrightarrow> success (email_outcome env p f r)) \<and> update_fault env (reminder_id r) = NoFault
      then map (mark_row (reminder_id r)) (reminders st) else reminders st)"
  by (simp add: reminder_body_def Let_def case_prod_beta email_outcome_eq mark_step_table)

lemma process_reminder_calls:
  "\<exists>pops. list_all (is_popup (OfReminder (reminder_id r))) pops
     \<and> calls (process_reminder env p f e b r st) = calls st @ reminder_calls env p f e b r pops"
proof -
  let ?s = "st\<lparr>acting_for := OfReminder (reminder_id r)\<rparr>"
  from browser_step_calls[of ?s r env b]
  obtain pops where pops: "list_all (is_popup (OfReminder (reminder_id r))) pops"
      "calls (browser_step env b r ?s) = calls st @ (if b then browser_call r # pops else [])"
    by auto
  have "calls (process_reminder env p f e b r st) =
         (calls st @ (if b then browser_call r # pops else []))
           @ (if e then email_call p f r # (if success (email_outcome env p f r) then [update_call r] else [])
              else [update_call r])"
    unfolding process_reminder_via_body pops(2)[symmetric]
    by (rule reminder_body_calls) simp
  then have "calls (process_reminder env p f e b r st) = calls st @ reminder_calls env p f e b r pops"
    by (simp add: reminder_calls_def)
  with pops(1) show ?thesis
    by (intro exI[of _ pops] conjI)
qed

lemma process_reminder_table:
  "reminders (process_reminder env p f e b r st) =
     (if (e \<longrightarrow> success (email_outcome env p f r)) \<and> update_fault env (reminder_id r) = NoFault
      then map (mark_row (reminder_id r)) (reminders st) else reminders st)"
  by (simp add: process_reminder_via_body reminder_body_table)

lemma within_calls: "within P st st' \<Longrightarrow> calls st' = calls st @ new_calls st st'"
  by (auto simp: within_def prefix_def new_calls_def)

lemma new_calls_append: "calls st' = calls st @ xs \<Longrightarrow> new_calls st st' = xs"
  by (simp add: new_calls_def)

lemma marked_keeps_sent:
  assumes "list_all2 marked xs ys" and "\<forall>x\<in>set xs. reminder_id x = i \<longrightarrow> notification_sent x"
  shows "\<forall>y\<in>set ys. reminder_id y = i \<longrightarrow> notification_sent y"
proof (intro ballI impI)
  fix y assume y: "y \<in> set ys" "reminder_id y = i"
  from y(1) obtain k where k: "k < length ys" "ys ! k = y"
    by (auto simp: in_set_conv_nth)
  with assms(1) have m: "k < length xs" "marked (xs ! k) y"
    by (auto simp: list_all2_conv_all_nth)
  have "xs ! k \<in> set xs"
    using m(1) by simp
  moreover from m(2) y(2) have "reminder_id (xs ! k) = i"
    unfolding marked_def by (elim disjE) simp_all
  ultimately have "notification_sent (xs ! k)"
    using assms(2) by blast
  with m(2) show "notification_sent y"
    unfolding marked_def by (elim disjE) simp_all
qed

lemma mark_row_sent: "\<forall>x\<in>set (map (mark_row i) xs). reminder_id x = i \<longrightarrow> notification_sent x"
proof (intro ballI impI)
  fix x assume x: "x \<in> set (map (mark_row i) xs)" "reminder_id x = i"
  then obtain y where y: "x = mark_row i y"
    by (auto simp: image_iff)
  show "notification_sent x"
    using x(2) unfolding y by (cases "reminder_id y = i") (simp_all add: mark_row_def)
qed

lemma reminders_loop_segment:
  "r \<in> set rs \<Longrightarrow>
   \<exists>xs pops zs. list_all (is_popup (OfReminder (reminder_id r))) pops
     \<and> calls (reminders_loop env p f e b rs st) = calls st @ xs @ reminder_calls env p f e b r pops @ zs"
proof (induction rs arbitrary: st)
  case Nil
  then show ?case by simp
next
  case (Cons a rs)
  let ?st1 = "process_reminder env p f e b a st"
  have w: "calls (reminders_loop env p f e b rs ?st1) = calls ?st1 @ new_calls ?st1 (reminders_loop env p f e b rs ?st1)"
    by (rule within_calls[OF reminders_loop_within])
  have w1: "calls ?st1 = calls st @ new_calls st ?st1"
    by (rule within_calls[OF process_reminder_within])
  show ?case
  proof (cases "r = a")
    case True
    from process_reminder_calls[of a env p f e b st]
    obtain pops where pops: "list_all (is_popup (OfReminder (reminder_id r))) pops"
      "calls ?st1 = calls st @ reminder_calls env p f e b r pops"
      unfolding True by (elim exE conjE)
    have "calls (reminders_loop env p f e b (a # rs) st)
        = calls st @ [] @ reminder_calls env p f e b r pops @ new_calls ?st1 (reminders_loop env p f e b rs ?st1)"
      using w pops(2) by simp
    with pops(1) show ?thesis
      by (intro exI[of _ "[]"] exI[of _ pops]
          exI[of _ "new_calls ?st1 (reminders_loop env p f e b rs ?st1)"] conjI)
  next
    case False
    with Cons.prems have "r \<in> set rs" by simp
    from Cons.IH[OF this, of ?st1] obtain xs pops zs where
      h: "list_all (is_popup (OfReminder (reminder_id r))) pops"
         "calls (reminders_loop env p f e b rs ?st1) = calls ?st1 @ xs @ reminder_calls env p f e b r pops @ zs"
      by (elim exE conjE)
    have "calls (reminders_loop env p f e b (a # rs) st)
        = calls st @ (new_calls st ?st1 @ xs) @ reminder_calls env p f e b r pops @ zs"
      using h(2) w1 by simp
    with h(1) show ?thesis
      by (intro exI[of _ "new_calls st ?st1 @ xs"] exI[of _ pops] exI[of _ zs] conjI)
  qed
qed

lemma reminders_loop_marks:
  assumes "r \<in> set rs" and "e \<longrightarrow> success (email_outcome env p f r)"
    and "update_fault env (reminder_id r) = NoFault"
  shows "\<forall>x\<in>set (reminders (reminders_loop env p f e b rs st)).
           reminder_id x = reminder_id r \<longrightarrow> notification_sent x"
  using assms(1)
proof (induction rs arbitrary: st)
  case Nil
  then show ?case by simp
next
  case (Cons a rs)
  let ?st1 = "process_reminder env p f e b a st"
  show ?case
  proof (cases "r = a")
    case True
    have "reminders ?st1 = map (mark_row (reminder_id r)) (reminders st)"
      using assms(2,3) True by (simp add: process_reminder_table)
    then have "\<forall>x\<in>set (reminders ?st1). reminder_id x = reminder_id r \<longrightarrow> notification_sent x"
      using mark_row_sent[of "reminder_id r" "reminders st"] by simp
    moreover have "list_all2 marked (reminders ?st1) (reminders (reminders_loop env p f e b rs ?st1))"
      using reminders_loop_within[of rs ?st1 env p f e b] by (simp add: within_def)
    ultimately have "\<forall>x\<in>set (reminders (reminders_loop env p f e b rs ?st1)).
        reminder_id x = reminder_id r \<longrightarrow> notification_sent x"
      by (rule marked_keeps_sent[rotated])
    then show ?thesis by simp
  next
    case False
    with Cons.prems have "r \<in> set rs" by simp
    from Cons.IH[OF this] show ?thesis by simp
  qed
qed

lemma profile_body_due:
  assumes "emailNotificationsEnabled p \<or> browserNotificationsEnabled p"
    and "reminders_fault env (profile_id p) = NoFault"
    and "r \<in> set (reminders st)" and "user_id r = profile_id p" and "dueFilter (now env) r"
  shows "r \<in> set (dueReminders (now env) (filter (\<lambda>x. user_id x = profile_id p) (reminders st)))"
    and "profile_body env p st =
       (None, reminders_loop env p (firstName_of p) (emailNotificationsEnabled p) (browserNotificationsEnabled p)
                (dueReminders (now env) (filter (\<lambda>x. user_id x = profile_id p) (reminders st)))
                (emit (SelectReminders (profile_id p)) (st\<lparr>acting_for := OfProfile (profile_id p)\<rparr>)))"
proof -
  show m: "r \<in> set (dueReminders (now env) (filter (\<lambda>x. user_id x = profile_id p) (reminders st)))"
    using assms(3-5) by (simp add: dueReminders_def)
  then have ne: "dueReminders (now env) (filter (\<lambda>x. user_id x = profile_id p) (reminders st)) \<noteq> []"
      "filter (\<lambda>x. user_id x = profile_id p) (reminders st) \<noteq> []"
    by (auto simp: dueReminders_def filter_empty_conv)
  have sel: "select_reminders env (profile_id p) (st\<lparr>acting_for := OfProfile (profile_id p)\<rparr>)
      = (Resolves \<lparr>data = Some (filter (\<lambda>x. user_id x = profile_id p) (reminders st)), error = None\<rparr>,
         emit (SelectReminders (profile_id p)) (st\<lparr>acting_for := OfProfile (profile_id p)\<rparr>))"
    using assms(2) by (simp add: select_reminders_def Let_def emit_def)
  show "profile_body env p st =
       (None, reminders_loop env p (firstName_of p) (emailNotificationsEnabled p) (browserNotificationsEnabled p)
                (dueReminders (now env) (filter (\<lambda>x. user_id x = profile_id p) (reminders st)))
                (emit (SelectReminders (profile_id p)) (st\<lparr>acting_for := OfProfile (profile_id p)\<rparr>)))"
    using assms(1) ne
    by (auto simp: profile_body_def sel Let_def)
qed

lemma update_call_not_browser:
  "list_all (is_popup (OfReminder (reminder_id r))) pops \<Longrightarrow>
   update_call r \<notin> set (if b then browser_call r # pops else [])"
  by (auto simp: update_call_def browser_call_def is_popup_def list_all_iff)

lemma process_reminder_new_calls:
  "\<exists>pops. list_all (is_popup (OfReminder (reminder_id r))) pops
     \<and> new_calls st (process_reminder env p f e b r st) = reminder_calls env p f e b r pops"
  using process_reminder_calls[of r env p f e b st] by (auto simp: new_calls_def)

lemma profile_body_segment:
  assumes "emailNotificationsEnabled p \<or> browserNotificationsEnabled p"
    and "reminders_fault env (profile_id p) = NoFault"
    and "r \<in> set (reminders st)" and "user_id r = profile_id p" and "dueFilter (now env) r"
  shows "\<exists>xs pops zs. list_all (is_popup (OfReminder (reminder_id r))) pops
     \<and> new_calls st (snd (profile_body env p st)) =
          xs @ reminder_calls env p (firstName_of p) (emailNotificationsEnabled p)
                 (browserNotificationsEnabled p) r pops @ zs"
proof -
  let ?st1 = "emit (SelectReminders (profile_id p)) (st\<lparr>acting_for := OfProfile (profile_id p)\<rparr>)"
  let ?due = "dueReminders (now env) (filter (\<lambda>x. user_id x = profile_id p) (reminders st))"
  let ?e = "emailNotificationsEnabled p" and ?b = "browserNotificationsEnabled p"
  note pb = profile_body_due[OF assms]
  from reminders_loop_segment[OF pb(1), of env p "firstName_of p" ?e ?b ?st1]
  obtain xs pops zs where h: "list_all (is_popup (OfReminder (reminder_id r))) pops"
    "calls (reminders_loop env p (firstName_of p) ?e ?b ?due ?st1)
       = calls ?st1 @ xs @ reminder_calls env p (firstName_of p) ?e ?b r pops @ zs"
    by (elim exE conjE)
  have "calls (snd (profile_body env p st))
      = calls st @ ((OfProfile (profile_id p), SelectReminders (profile_id p)) # xs)
          @ reminder_calls env p (firstName_of p) ?e ?b r pops @ zs"
  proof -
    have c1: "calls ?st1 = calls st @ [(OfProfile (profile_id p), SelectReminders (profile_id p))]"
      by (simp add: emit_def)
    have "calls (snd (profile_body env p st))
        = calls ?st1 @ xs @ reminder_calls env p (firstName_of p) ?e ?b r pops @ zs"
      by (simp only: pb(2) snd_conv h(2))
    then show ?thesis
      by (simp only: c1 append_assoc append_Cons append_Nil)
  qed
  then have "new_calls st (snd (profile_body env p st))
      = ((OfProfile (profile_id p), SelectReminders (profile_id p)) # xs)
          @ reminder_calls env p (firstName_of p) ?e ?b r pops @ zs"
    by (rule new_calls_append)
  with h(1) show ?thesis
    by (intro exI[of _ "(OfProfile (profile_id p), SelectReminders (profile_id p)) # xs"]
        exI[of _ pops] exI[of _ zs] conjI)
qed

lemma email_outcome_success:
  "success (email_outcome env p f r) \<longleftrightarrow>
     (\<exists>m. send_reminder_route env (reminder_request p f r) = Reply 200 m)"
  by (auto simp: email_outcome_def sendReminderNotification_def sendEmail_def Let_def reminder_request_def
      split: api_reply.splits)

section \<open>Starting: what a pass leaves alone\<close>






section \<open>Failures and writers\<close>

text \<open>
  What the loops do when a collaborator fails, and which calls of a pass write the flag.
\<close>

lemma filter_update_browser:
  "list_all (is_popup s) pops \<Longrightarrow> filter is_update (if b then browser_call r # pops else []) = []"
  by (auto simp: is_update_def browser_call_def is_popup_def list_all_iff filter_empty_conv
      split: event.splits)

lemma process_reminder_updates:
  "filter is_update (new_calls st (process_reminder env p f e b r st))
     = (if e \<longrightarrow> success (email_outcome env p f r) then [update_call r] else [])"
proof -
  from process_reminder_new_calls[of r st env p f e b]
  obtain pops where pops: "list_all (is_popup (OfReminder (reminder_id r))) pops"
    "new_calls st (process_reminder env p f e b r st) = reminder_calls env p f e b r pops"
    by (elim exE conjE)
  have u: "is_update (update_call r)" "\<not> is_update (email_call p f r)"
    by (simp_all add: is_update_def update_call_def email_call_def)
  show ?thesis
    unfolding pops(2) reminder_calls_def
    by (simp add: filter_update_browser[OF pops(1)] u)
qed

lemma pass_call_update:
  assumes "pass_call t tbl c" and "snd c = UpdateNotificationSent i"
  shows "\<exists>r\<in>set tbl. reminder_id r = i \<and> dueFilter t r"
proof (cases c)
  case (Pair s ev)
  with assms(2) have ev: "ev = UpdateNotificationSent i" by simp
  from assms(1) show ?thesis
    unfolding Pair ev
    by (cases s) (auto simp: pass_call_def due_call_def list_ex_iff for_reminder_def)
qed

lemma pass_updates_only_due:
  "\<forall>c\<in>set (new_calls st (checkAndSendReminderNotifications env st)).
     \<forall>i. snd c = UpdateNotificationSent i \<longrightarrow>
       (\<exists>r\<in>set (reminders st). reminder_id r = i \<and> dueFilter (now env) r)"
proof -
  have "list_all (pass_call (now env) (reminders st))
          (new_calls st (checkAndSendReminderNotifications env st))"
    using pass_within[of env st] by (simp add: within_def new_calls_def)
  then show ?thesis
    by (auto simp: list_all_iff dest: pass_call_update)
qed

lemma pass_only_marks:
  "list_all2 marked (reminders st) (reminders (checkAndSendReminderNotifications env st))"
  using pass_within[of env st] by (simp add: within_def)

lemma checkReminders_loop_one:
  assumes "0 < due_date r - now env" and "due_date r - now env \<le> 600000"
    and "\<not> notification_ctor_throws env" and "update_fault env (reminder_id r) = NoFault"
  shows "reminders (snd (checkReminders_loop env [r] st)) = map (mark_row (reminder_id r)) (reminders st)"
    and "notifications (snd (checkReminders_loop env [r] st)) = context_entry r # notifications st"
    and "passes (snd (checkReminders_loop env [r] st)) = passes st"
  using assms
  by (simp_all add: addNotification_def update_notification_sent_def Let_def emit_def context_entry_def)

section \<open>Reaching a reminder\<close>

text \<open>
  What happens to one row during a pass: it is left alone by the iterations for other
  reminders and by a failed email of its own, it gets the flag when its update goes
  through, and the loops get to it when the pass reaches it.
\<close>

lemma marked_ids: "list_all2 marked xs ys \<Longrightarrow> map reminder_id ys = map reminder_id xs"
proof (induction rule: list_all2_induct)
  case Nil
  show ?case by simp
next
  case (Cons x xs y ys)
  from Cons.hyps(1) have "reminder_id y = reminder_id x"
    unfolding marked_def by (elim disjE) simp_all
  with Cons.IH show ?case by simp
qed

lemma marked_keeps_row:
  assumes "list_all2 marked xs ys" and "x \<in> set xs" and "notification_sent x"
  shows "x \<in> set ys"
proof -
  from assms(2) obtain k where k: "k < length xs" "xs ! k = x"
    by (auto simp: in_set_conv_nth)
  with assms(1) have l: "k < length ys" and m: "marked x (ys ! k)"
    by (auto simp: list_all2_conv_all_nth)
  have "x\<lparr>notification_sent := True\<rparr> = x"
    using assms(3) by simp
  with m have "ys ! k = x"
    unfolding marked_def by (elim disjE) simp_all
  with l show ?thesis
    using nth_mem by fastforce
qed

lemma marked_row_or:
  assumes "list_all2 marked xs ys"
    and "r \<in> set xs \<or> r\<lparr>notification_sent := True\<rparr> \<in> set xs"
  shows "r \<in> set ys \<or> r\<lparr>notification_sent := True\<rparr> \<in> set ys"
proof -
  have step: "x \<in> set ys \<or> x\<lparr>notification_sent := True\<rparr> \<in> set ys" if "x \<in> set xs" for x
  proof -
    from that obtain k where k: "k < length xs" "xs ! k = x"
      by (auto simp: in_set_conv_nth)
    with assms(1) have l: "k < length ys" and m: "marked x (ys ! k)"
      by (auto simp: list_all2_conv_all_nth)
    from l have "ys ! k \<in> set ys" by simp
    with m show ?thesis
      unfolding marked_def by (elim disjE) simp_all
  qed
  from assms(2) show ?thesis
  proof
    assume "r \<in> set xs"
    then show ?thesis by (rule step)
  next
    assume "r\<lparr>notification_sent := True\<rparr> \<in> set xs"
    from step[OF this] show ?thesis by simp
  qed
qed

lemma mark_row_keeps:
  "r \<in> set xs \<Longrightarrow> reminder_id r \<noteq> i \<Longrightarrow> r \<in> set (map (mark_row i) xs)"
proof -
  assume a: "r \<in> set xs" "reminder_id r \<noteq> i"
  then have "mark_row i r = r" by (simp add: mark_row_def)
  with a(1) show ?thesis by (metis imageI set_map)
qed

lemma mark_row_marks:
  "r \<in> set xs \<or> r\<lparr>notification_sent := True\<rparr> \<in> set xs \<Longrightarrow>
   r\<lparr>notification_sent := True\<rparr> \<in> set (map (mark_row (reminder_id r)) xs)"
proof (erule disjE)
  assume a: "r \<in> set xs"
  have "mark_row (reminder_id r) r = r\<lparr>notification_sent := True\<rparr>"
    by (simp add: mark_row_def)
  with a show ?thesis by (metis imageI set_map)
next
  assume a: "r\<lparr>notification_sent := True\<rparr> \<in> set xs"
  have "mark_row (reminder_id r) (r\<lparr>notification_sent := True\<rparr>) = r\<lparr>notification_sent := True\<rparr>"
    by (simp add: mark_row_def)
  with a show ?thesis by (metis imageI set_map)
qed

lemma update_call_eq: "update_call x = update_call r \<longleftrightarrow> reminder_id x = reminder_id r"
  by (auto simp: update_call_def)

lemma process_reminder_no_update:
  assumes "reminder_id x = reminder_id r \<longrightarrow> (e \<and> \<not> success (email_outcome env p f x))"
  shows "update_call r \<notin> set (new_calls st (process_reminder env p f e b x st))"
proof -
  from process_reminder_new_calls[of x st env p f e b]
  obtain pops where pops: "list_all (is_popup (OfReminder (reminder_id x))) pops"
    "new_calls st (process_reminder env p f e b x st) = reminder_calls env p f e b x pops"
    by (elim exE conjE)
  have nb: "update_call r \<notin> set (if b then browser_call x # pops else [])"
    using pops(1) by (auto simp: update_call_def browser_call_def is_popup_def list_all_iff)
  have ne: "update_call r \<noteq> email_call p f x"
    by (simp add: update_call_def email_call_def)
  show ?thesis
    unfolding pops(2) reminder_calls_def
    using nb ne assms by (auto simp: update_call_eq)
qed

lemma process_reminder_keeps:
  assumes "r \<in> set (reminders st)"
    and "reminder_id x = reminder_id r \<longrightarrow> (e \<and> \<not> success (email_outcome env p f x))"
  shows "r \<in> set (reminders (process_reminder env p f e b x st))"
proof (cases "reminder_id x = reminder_id r")
  case True
  with assms(2) have "e \<and> \<not> success (email_outcome env p f x)" by simp
  then show ?thesis
    using assms(1) by (simp add: process_reminder_table)
next
  case False
  then have "reminder_id r \<noteq> reminder_id x" by simp
  from mark_row_keeps[OF assms(1) this] assms(1) show ?thesis
    by (simp add: process_reminder_table)
qed

lemma new_calls_trans:
  assumes "within P st st1" and "within Q st1 st2"
  shows "new_calls st st2 = new_calls st st1 @ new_calls st1 st2"
proof -
  from assms have "calls st1 = calls st @ new_calls st st1" "calls st2 = calls st1 @ new_calls st1 st2"
    by (simp_all add: within_calls)
  then have "calls st2 = calls st @ (new_calls st st1 @ new_calls st1 st2)"
    by simp
  then show ?thesis by (rule new_calls_append)
qed

lemma reminders_loop_keeps:
  assumes "\<forall>x\<in>set rs. reminder_id x = reminder_id r \<longrightarrow> (e \<and> \<not> success (email_outcome env p f x))"
    and "r \<in> set (reminders st)"
  shows "r \<in> set (reminders (reminders_loop env p f e b rs st))
       \<and> update_call r \<notin> set (new_calls st (reminders_loop env p f e b rs st))"
  using assms
proof (induction rs arbitrary: st)
  case Nil
  show ?case using Nil.prems by (simp add: new_calls_def)
next
  case (Cons a rs)
  let ?st1 = "process_reminder env p f e b a st"
  from Cons.prems(1) have a: "reminder_id a = reminder_id r \<longrightarrow> (e \<and> \<not> success (email_outcome env p f a))"
    and rest: "\<forall>x\<in>set rs. reminder_id x = reminder_id r \<longrightarrow> (e \<and> \<not> success (email_outcome env p f x))"
    by simp_all
  have k1: "r \<in> set (reminders ?st1)"
    using Cons.prems(2) a by (rule process_reminder_keeps)
  have n1: "update_call r \<notin> set (new_calls st ?st1)"
    using a by (rule process_reminder_no_update)
  from Cons.IH[OF rest k1]
  have k2: "r \<in> set (reminders (reminders_loop env p f e b rs ?st1))"
    and n2: "update_call r \<notin> set (new_calls ?st1 (reminders_loop env p f e b rs ?st1))"
    by simp_all
  have "new_calls st (reminders_loop env p f e b rs ?st1)
      = new_calls st ?st1 @ new_calls ?st1 (reminders_loop env p f e b rs ?st1)"
    by (rule new_calls_trans[OF process_reminder_within reminders_loop_within])
  with n1 n2 k2 show ?case by simp
qed

lemma reminders_loop_marks_row:
  assumes "r \<in> set rs" and "e \<longrightarrow> success (email_outcome env p f r)"
    and "update_fault env (reminder_id r) = NoFault"
    and "r \<in> set (reminders st) \<or> r\<lparr>notification_sent := True\<rparr> \<in> set (reminders st)"
  shows "r\<lparr>notification_sent := True\<rparr> \<in> set (reminders (reminders_loop env p f e b rs st))"
  using assms(1,4)
proof (induction rs arbitrary: st)
  case Nil
  then show ?case by simp
next
  case (Cons a rs)
  let ?st1 = "process_reminder env p f e b a st"
  have m1: "list_all2 marked (reminders st) (reminders ?st1)"
    using process_reminder_within[of a st env p f e b] by (simp add: within_def)
  show ?case
  proof (cases "r = a")
    case True
    have "reminders ?st1 = map (mark_row (reminder_id r)) (reminders st)"
      using assms(2,3) True by (simp add: process_reminder_table)
    with mark_row_marks[OF Cons.prems(2)]
    have in1: "r\<lparr>notification_sent := True\<rparr> \<in> set (reminders ?st1)" by simp
    have "list_all2 marked (reminders ?st1) (reminders (reminders_loop env p f e b rs ?st1))"
      using reminders_loop_within[of rs ?st1 env p f e b] by (simp add: within_def)
    from this in1
    have "r\<lparr>notification_sent := True\<rparr> \<in> set (reminders (reminders_loop env p f e b rs ?st1))"
      by (rule marked_keeps_row) simp
    then show ?thesis by simp
  next
    case False
    with Cons.prems(1) have "r \<in> set rs" by simp
    moreover from m1 Cons.prems(2)
    have "r \<in> set (reminders ?st1) \<or> r\<lparr>notification_sent := True\<rparr> \<in> set (reminders ?st1)"
      by (rule marked_row_or)
    ultimately show ?thesis
      using Cons.IH[of ?st1] by simp
  qed
qed

lemma distinct_map_same:
  "distinct (map f xs) \<Longrightarrow> x \<in> set xs \<Longrightarrow> y \<in> set xs \<Longrightarrow> f x = f y \<Longrightarrow> x = y"
  by (auto simp: distinct_map dest: inj_onD)

lemma profile_body_marked:
  "list_all2 marked (reminders st) (reminders (snd (profile_body env q st)))"
  using profile_body_within[of env st q] by (simp add: within_def)

lemma profile_body_ids:
  "map reminder_id (reminders (snd (profile_body env q st))) = map reminder_id (reminders st)"
  by (rule marked_ids[OF profile_body_marked])

lemma profiles_loop_within_self:
  "within (pass_call (now env) (dueReminders (now env) (reminders st))) st (snd (profiles_loop env ps st))"
  by (rule profiles_loop_within) simp

lemma profile_body_keeps:
  assumes r: "r \<in> set (reminders st)" and d: "distinct (map reminder_id (reminders st))"
    and h: "profile_id q = user_id r \<longrightarrow>
            (emailNotificationsEnabled q \<and> \<not> success (email_outcome env q (firstName_of q) r))"
  shows "r \<in> set (reminders (snd (profile_body env q st)))
       \<and> update_call r \<notin> set (new_calls st (snd (profile_body env q st)))"
proof -
  let ?s0 = "st\<lparr>acting_for := OfProfile (profile_id q)\<rparr>"
  let ?sel = "select_reminders env (profile_id q) ?s0"
  let ?st1 = "snd ?sel"
  let ?G = "\<lambda>s. r \<in> set (reminders s) \<and> update_call r \<notin> set (new_calls st s)"
  have c1: "calls ?st1 = calls st @ [reminders_call q]"
    by (simp add: select_reminders_def Let_def emit_def reminders_call_def split: fault.splits)
  have n1: "new_calls st ?st1 = [reminders_call q]"
    using c1 by (rule new_calls_append)
  have w1: "within (\<lambda>c. True) st ?st1"
    by (rule within_acting[OF select_reminders_within]) simp
  have ne: "update_call r \<noteq> reminders_call q"
    by (simp add: update_call_def reminders_call_def)
  have g0: "?G st"
    using r by (simp add: new_calls_def)
  have g1: "?G ?st1"
    using r ne by (simp add: n1)
  have g2: "?G (log m ?st1)" for m
    using g1 by (simp add: new_calls_def)
  have g3: "?G (reminders_loop env q (firstName_of q) (emailNotificationsEnabled q) b
                  (dueReminders (now env) rs) ?st1)"
    if "fst ?sel = Resolves res" "data res = Some rs" for res rs b
  proof -
    have rs: "rs = filter (\<lambda>x. user_id x = profile_id q) (reminders st)"
      using select_reminders_data[OF that] by simp
    have same: "\<forall>x\<in>set (dueReminders (now env) rs). reminder_id x = reminder_id r \<longrightarrow>
        (emailNotificationsEnabled q \<and> \<not> success (email_outcome env q (firstName_of q) x))"
    proof (intro ballI impI)
      fix x assume x: "x \<in> set (dueReminders (now env) rs)" "reminder_id x = reminder_id r"
      then have xin: "x \<in> set (reminders st)" and xu: "user_id x = profile_id q"
        by (simp_all add: dueReminders_def rs)
      from d xin r x(2) have "x = r" by (rule distinct_map_same)
      with xu h show "emailNotificationsEnabled q \<and> \<not> success (email_outcome env q (firstName_of q) x)"
        by simp
    qed
    let ?loop = "reminders_loop env q (firstName_of q) (emailNotificationsEnabled q) b
                  (dueReminders (now env) rs) ?st1"
    from reminders_loop_keeps[OF same, of ?st1 b] r
    have k: "r \<in> set (reminders ?loop)" and n: "update_call r \<notin> set (new_calls ?st1 ?loop)"
      by simp_all
    have "new_calls st ?loop = new_calls st ?st1 @ new_calls ?st1 ?loop"
      by (rule new_calls_trans[OF w1 reminders_loop_within])
    with k n ne show ?thesis by (simp add: n1)
  qed
  show ?thesis
    using g0 g1 g2 g3
    by (auto simp: profile_body_def Let_def case_prod_beta split: promise.splits option.splits)
qed

lemma profiles_loop_keeps:
  assumes "r \<in> set (reminders st)" and "distinct (map reminder_id (reminders st))"
    and "\<forall>q\<in>set ps. profile_id q = user_id r \<longrightarrow>
            (emailNotificationsEnabled q \<and> \<not> success (email_outcome env q (firstName_of q) r))"
  shows "r \<in> set (reminders (snd (profiles_loop env ps st)))
       \<and> update_call r \<notin> set (new_calls st (snd (profiles_loop env ps st)))"
  using assms
proof (induction ps arbitrary: st)
  case Nil
  then show ?case by (simp add: new_calls_def)
next
  case (Cons q ps)
  let ?st1 = "snd (profile_body env q st)"
  from Cons.prems(3) have hq: "profile_id q = user_id r \<longrightarrow>
            (emailNotificationsEnabled q \<and> \<not> success (email_outcome env q (firstName_of q) r))"
    and rest: "\<forall>q\<in>set ps. profile_id q = user_id r \<longrightarrow>
            (emailNotificationsEnabled q \<and> \<not> success (email_outcome env q (firstName_of q) r))"
    by simp_all
  from profile_body_keeps[OF Cons.prems(1,2) hq]
  have k1: "r \<in> set (reminders ?st1)" and n1: "update_call r \<notin> set (new_calls st ?st1)"
    by simp_all
  have d1: "distinct (map reminder_id (reminders ?st1))"
    using Cons.prems(2) by (simp add: profile_body_ids)
  show ?case
  proof (cases "fst (profile_body env q st)")
    case (Some e)
    then have "snd (profiles_loop env (q # ps) st) = ?st1"
      by (simp add: case_prod_beta)
    with k1 n1 show ?thesis by simp
  next
    case None
    then have eq: "snd (profiles_loop env (q # ps) st) = snd (profiles_loop env ps ?st1)"
      by (simp add: case_prod_beta)
    from Cons.IH[OF k1 d1 rest]
    have k2: "r \<in> set (reminders (snd (profiles_loop env ps ?st1)))"
      and n2: "update_call r \<notin> set (new_calls ?st1 (snd (profiles_loop env ps ?st1)))"
      by simp_all
    have "new_calls st (snd (profiles_loop env ps ?st1))
        = new_calls st ?st1 @ new_calls ?st1 (snd (profiles_loop env ps ?st1))"
      by (rule new_calls_trans[OF profile_body_within profiles_loop_within_self])
    with k2 n1 n2 show ?thesis
      unfolding eq by simp
  qed
qed

lemma profile_body_not_rejected:
  "\<not> (profile_enabled q \<and> fetch_rejects env q) \<Longrightarrow> fst (profile_body env q st) = None"
  by (auto simp: profile_body_def profile_enabled_def fetch_rejects_def select_reminders_def
      Let_def case_prod_beta split: fault.splits option.splits)

lemma profiles_loop_marked:
  "list_all2 marked (reminders st) (reminders (snd (profiles_loop env ps st)))"
  using profiles_loop_within_self[of env st ps] by (simp add: within_def)

lemma profiles_loop_reaches:
  assumes "reached env ps p" and "distinct (map profile_id ps)"
    and en: "profile_enabled p" and nf: "reminders_fault env (profile_id p) = NoFault"
    and "distinct (map reminder_id (reminders st))" and "r \<in> set (reminders st)"
    and u: "user_id r = profile_id p" and due: "dueFilter (now env) r"
  shows "(\<exists>xs pops zs. list_all (is_popup (OfReminder (reminder_id r))) pops
           \<and> new_calls st (snd (profiles_loop env ps st))
               = xs @ reminder_calls env p (firstName_of p) (emailNotificationsEnabled p)
                        (browserNotificationsEnabled p) r pops @ zs)
       \<and> ((emailNotificationsEnabled p \<longrightarrow> success (email_outcome env p (firstName_of p) r))
            \<and> update_fault env (reminder_id r) = NoFault
           \<longrightarrow> r\<lparr>notification_sent := True\<rparr> \<in> set (reminders (snd (profiles_loop env ps st))))"
  using assms(1,2,5,6)
proof (induction ps arbitrary: st)
  case Nil
  then show ?case by (simp add: reached_def)
next
  case (Cons q ps)
  let ?st1 = "snd (profile_body env q st)"
  let ?fin = "snd (profiles_loop env ps ?st1)"
  let ?RC = "reminder_calls env p (firstName_of p) (emailNotificationsEnabled p)
                        (browserNotificationsEnabled p) r"
  have en': "emailNotificationsEnabled p \<or> browserNotificationsEnabled p"
    using en by (simp add: profile_enabled_def)
  have tr: "new_calls st ?fin = new_calls st ?st1 @ new_calls ?st1 ?fin"
    by (rule new_calls_trans[OF profile_body_within profiles_loop_within_self])
  show ?case
  proof (cases "q = p")
    case True
    note pb = profile_body_due[OF en' nf Cons.prems(4) u due]
    have eq: "snd (profiles_loop env (q # ps) st) = ?fin"
      unfolding True by (simp add: pb(2))
    from profile_body_segment[OF en' nf Cons.prems(4) u due]
    obtain xs pops zs where seg: "list_all (is_popup (OfReminder (reminder_id r))) pops"
      "new_calls st (snd (profile_body env p st)) = xs @ ?RC pops @ zs"
      by (elim exE conjE)
    have "new_calls st ?fin = xs @ ?RC pops @ (zs @ new_calls ?st1 ?fin)"
      using tr seg(2) unfolding True by simp
    with seg(1) have calls: "\<exists>xs pops zs. list_all (is_popup (OfReminder (reminder_id r))) pops
           \<and> new_calls st ?fin = xs @ ?RC pops @ zs"
      by (intro exI[of _ xs] exI[of _ pops] exI[of _ "zs @ new_calls ?st1 ?fin"] conjI)
    have flag: "r\<lparr>notification_sent := True\<rparr> \<in> set (reminders ?fin)"
      if ok: "(emailNotificationsEnabled p \<longrightarrow> success (email_outcome env p (firstName_of p) r))
            \<and> update_fault env (reminder_id r) = NoFault"
    proof -
      have "r\<lparr>notification_sent := True\<rparr> \<in> set (reminders (snd (profile_body env p st)))"
        unfolding pb(2) snd_conv
        by (rule reminders_loop_marks_row[OF pb(1)]) (use ok Cons.prems(4) in \<open>simp_all add: emit_def\<close>)
      with profiles_loop_marked[of ?st1 env ps] show ?thesis
        unfolding True by (rule marked_keeps_row) simp
    qed
    from calls flag show ?thesis
      unfolding eq by blast
  next
    case False
    from Cons.prems(1) False have pin: "p \<in> set ps"
      and nr: "\<not> (profile_enabled q \<and> fetch_rejects env q)"
      and re: "reached env ps p"
      by (auto simp: reached_def)
    have none: "fst (profile_body env q st) = None"
      using nr by (rule profile_body_not_rejected)
    then have eq: "snd (profiles_loop env (q # ps) st) = ?fin"
      by (simp add: case_prod_beta)
    have "profile_id q \<noteq> profile_id p"
      using Cons.prems(2) pin by (auto simp: image_iff)
    then have vac: "profile_id q = user_id r \<longrightarrow>
            (emailNotificationsEnabled q \<and> \<not> success (email_outcome env q (firstName_of q) r))"
      using u by simp
    from profile_body_keeps[OF Cons.prems(4,3) vac]
    have k1: "r \<in> set (reminders ?st1)" by simp
    have d1: "distinct (map reminder_id (reminders ?st1))"
      using Cons.prems(3) by (simp add: profile_body_ids)
    from Cons.prems(2) have dp: "distinct (map profile_id ps)" by simp
    from Cons.IH[OF re dp d1 k1]
    obtain xs pops zs where seg: "list_all (is_popup (OfReminder (reminder_id r))) pops"
      "new_calls ?st1 ?fin = xs @ ?RC pops @ zs"
      and flag: "(emailNotificationsEnabled p \<longrightarrow> success (email_outcome env p (firstName_of p) r))
            \<and> update_fault env (reminder_id r) = NoFault
           \<longrightarrow> r\<lparr>notification_sent := True\<rparr> \<in> set (reminders ?fin)"
      by (elim exE conjE)
    have "new_calls st ?fin = (new_calls st ?st1 @ xs) @ ?RC pops @ zs"
      using tr seg(2) by simp
    with seg(1) have calls: "\<exists>xs pops zs. list_all (is_popup (OfReminder (reminder_id r))) pops
           \<and> new_calls st ?fin = xs @ ?RC pops @ zs"
      by (intro exI[of _ "new_calls st ?st1 @ xs"] exI[of _ pops] exI[of _ zs] conjI)
    from calls flag show ?thesis
      unfolding eq by blast
  qed
qed

lemma pass_unfold:
  assumes "window_defined env" and "supabase_client env"
    and "profiles_query env = Resolves \<lparr>data = Some ps, error = None\<rparr>" and "ps \<noteq> []"
  shows "reminders (checkAndSendReminderNotifications env st)
       = reminders (snd (profiles_loop env ps
            (emit SelectProfiles (st\<lparr>passes := passes st + 1, acting_for := WholePass\<rparr>))))"
    and "new_calls st (checkAndSendReminderNotifications env st)
       = (WholePass, SelectProfiles)
         # new_calls (emit SelectProfiles (st\<lparr>passes := passes st + 1, acting_for := WholePass\<rparr>))
             (snd (profiles_loop env ps
                (emit SelectProfiles (st\<lparr>passes := passes st + 1, acting_for := WholePass\<rparr>))))"
proof -
  let ?st1 = "emit SelectProfiles (st\<lparr>passes := passes st + 1, acting_for := WholePass\<rparr>)"
  let ?fin = "snd (profiles_loop env ps ?st1)"
  have r: "reminders (checkAndSendReminderNotifications env st) = reminders ?fin"
    and c: "calls (checkAndSendReminderNotifications env st) = calls ?fin"
    using assms
    by (simp_all add: checkAndSendReminderNotifications_def pass_body_def Let_def case_prod_beta
        split: option.splits)
  show "reminders (checkAndSendReminderNotifications env st) = reminders ?fin"
    by (rule r)
  have "calls ?fin = calls ?st1 @ new_calls ?st1 ?fin"
    by (rule within_calls[OF profiles_loop_within_self])
  moreover have "calls ?st1 = calls st @ [(WholePass, SelectProfiles)]"
    by (simp add: emit_def)
  ultimately have "calls (checkAndSendReminderNotifications env st)
      = calls st @ ((WholePass, SelectProfiles) # new_calls ?st1 ?fin)"
    using c by simp
  then show "new_calls st (checkAndSendReminderNotifications env st)
       = (WholePass, SelectProfiles) # new_calls ?st1 ?fin"
    by (rule new_calls_append)
qed

lemma pass_reaches_fires:
  assumes "pass_reaches env st ps p r"
  shows "(\<exists>xs pops zs. list_all (is_popup (OfReminder (reminder_id r))) pops
           \<and> new_calls st (checkAndSendReminderNotifications env st)
               = xs @ reminder_calls env p (firstName_of p) (emailNotificationsEnabled p)
                        (browserNotificationsEnabled p) r pops @ zs)
       \<and> ((emailNotificationsEnabled p \<longrightarrow> success (email_outcome env p (firstName_of p) r))
            \<and> update_fault env (reminder_id r) = NoFault
           \<longrightarrow> r\<lparr>notification_sent := True\<rparr> \<in> set (reminders (checkAndSendReminderNotifications env st)))"
proof -
  let ?st1 = "emit SelectProfiles (st\<lparr>passes := passes st + 1, acting_for := WholePass\<rparr>)"
  let ?fin = "snd (profiles_loop env ps ?st1)"
  let ?RC = "reminder_calls env p (firstName_of p) (emailNotificationsEnabled p)
                        (browserNotificationsEnabled p) r"
  from assms have a: "window_defined env" "supabase_client env"
    "profiles_query env = Resolves \<lparr>data = Some ps, error = None\<rparr>"
    "distinct (map profile_id ps)" "reached env ps p" "profile_enabled p"
    "reminders_fault env (profile_id p) = NoFault" "distinct (map reminder_id (reminders st))"
    "r \<in> set (reminders st)" "user_id r = profile_id p" "dueFilter (now env) r"
    by (simp_all add: pass_reaches_def)
  from a(5) have ne: "ps \<noteq> []" by (auto simp: reached_def)
  note pu = pass_unfold[OF a(1-3) ne, of st]
  have t1: "reminders ?st1 = reminders st" by (simp add: emit_def)
  have d1: "distinct (map reminder_id (reminders ?st1))" and r1: "r \<in> set (reminders ?st1)"
    using a(8,9) by (simp_all add: t1)
  from profiles_loop_reaches[OF a(5,4,6,7) d1 r1 a(10,11)]
  obtain xs pops zs where seg: "list_all (is_popup (OfReminder (reminder_id r))) pops"
      "new_calls ?st1 ?fin = xs @ ?RC pops @ zs"
    and flag: "(emailNotificationsEnabled p \<longrightarrow> success (email_outcome env p (firstName_of p) r))
            \<and> update_fault env (reminder_id r) = NoFault
           \<longrightarrow> r\<lparr>notification_sent := True\<rparr> \<in> set (reminders ?fin)"
    by (elim exE conjE)
  have "new_calls st (checkAndSendReminderNotifications env st)
      = ((WholePass, SelectProfiles) # xs) @ ?RC pops @ zs"
    by (simp only: pu(2) seg(2) append_Cons)
  with seg(1) have "\<exists>xs pops zs. list_all (is_popup (OfReminder (reminder_id r))) pops
           \<and> new_calls st (checkAndSendReminderNotifications env st) = xs @ ?RC pops @ zs"
    by (intro exI[of _ "(WholePass, SelectProfiles) # xs"] exI[of _ pops] exI[of _ zs] conjI)
  with flag show ?thesis
    unfolding pu(1) by blast
qed

lemma pass_reaches_keeps:
  assumes "pass_reaches env st ps p r"
    and "emailNotificationsEnabled p" and "\<not> success (email_outcome env p (firstName_of p) r)"
  shows "r \<in> set (reminders (checkAndSendReminderNotifications env st))
       \<and> update_call r \<notin> set (new_calls st (checkAndSendReminderNotifications env st))"
proof -
  let ?st1 = "emit SelectProfiles (st\<lparr>passes := passes st + 1, acting_for := WholePass\<rparr>)"
  let ?fin = "snd (profiles_loop env ps ?st1)"
  from assms(1) have a: "window_defined env" "supabase_client env"
    "profiles_query env = Resolves \<lparr>data = Some ps, error = None\<rparr>"
    "distinct (map profile_id ps)" "reached env ps p"
    "distinct (map reminder_id (reminders st))"
    "r \<in> set (reminders st)" "user_id r = profile_id p"
    by (simp_all add: pass_reaches_def)
  from a(5) have pin: "p \<in> set ps" by (simp add: reached_def)
  then have ne: "ps \<noteq> []" by auto
  note pu = pass_unfold[OF a(1-3) ne, of st]
  have t1: "reminders ?st1 = reminders st" by (simp add: emit_def)
  have only: "\<forall>q\<in>set ps. profile_id q = user_id r \<longrightarrow>
            (emailNotificationsEnabled q \<and> \<not> success (email_outcome env q (firstName_of q) r))"
  proof (intro ballI impI)
    fix q assume q: "q \<in> set ps" "profile_id q = user_id r"
    then have "profile_id q = profile_id p" using a(8) by simp
    with a(4) q(1) pin have "q = p" by (rule distinct_map_same)
    with assms(2,3) show "emailNotificationsEnabled q \<and> \<not> success (email_outcome env q (firstName_of q) r)"
      by simp
  qed
  have d1: "distinct (map reminder_id (reminders ?st1))" and r1: "r \<in> set (reminders ?st1)"
    using a(6,7) by (simp_all add: t1)
  from profiles_loop_keeps[OF r1 d1 only]
  have "r \<in> set (reminders ?fin)" and n: "update_call r \<notin> set (new_calls ?st1 ?fin)"
    by simp_all
  moreover have "update_call r \<noteq> (WholePass, SelectProfiles)"
    by (simp add: update_call_def)
  ultimately show ?thesis
    by (simp add: pu)
qed

lemma pass_ids:
  "map reminder_id (reminders (checkAndSendReminderNotifications env st)) = map reminder_id (reminders st)"
  by (rule marked_ids[OF pass_only_marks])

lemma sent_row_only:
  assumes "distinct (map reminder_id tbl)" and "r\<lparr>notification_sent := True\<rparr> \<in> set tbl"
  shows "\<forall>x\<in>set tbl. reminder_id x = reminder_id r \<longrightarrow> notification_sent x"
proof (intro ballI impI)
  fix x assume x: "x \<in> set tbl" "reminder_id x = reminder_id r"
  then have "reminder_id x = reminder_id (r\<lparr>notification_sent := True\<rparr>)" by simp
  with assms(1) x(1) assms(2) have "x = r\<lparr>notification_sent := True\<rparr>"
    by (rule distinct_map_same)
  then show "notification_sent x" by simp
qed

lemma isDueNow_iff:
  "isDueNow t d \<longleftrightarrow> window_in_range d \<and> d - 120 * 1000 \<le> t \<and> t \<le> d + 120 * 1000"
  by (auto simp: isDueNow_def windowStart_def windowEnd_def new_Date_def window_in_range_def)

lemma reminder_calls_members:
  "(b \<longrightarrow> browser_call r \<in> set (xs @ reminder_calls env p f e b r pops @ zs))
   \<and> (e \<longrightarrow> email_call p f r \<in> set (xs @ reminder_calls env p f e b r pops @ zs))
   \<and> (e \<and> success (email_outcome env p f r) \<longrightarrow>
        update_call r \<in> set (xs @ reminder_calls env p f e b r pops @ zs))
   \<and> (\<not> e \<longrightarrow> update_call r \<in> set (xs @ reminder_calls env p f e b r pops @ zs))"
  by (simp add: reminder_calls_def)

section \<open>The due window\<close>

text \<open>
  Claim C1 says that for every current time and every due timestamp a reminder passes the
  due test exactly when \<open>dueAt - 120 s \<le> now \<le> dueAt + 120 s\<close>. The code compares the
  current time with \<^verbatim>\<open>new Date(dueDate.getTime() + 2 * 60 * 1000)\<close>, which is an Invalid Date
  when that bound lies beyond the Date range, and the comparison is then false. One second
  before a due date at the end of the range the inequality of the claim holds and the
  reminder is not due.
\<close>

theorem due_window_at_range_end:
  "8640000000000000 - 120 * 1000 \<le> (8639999999999000 :: int)
   \<and> (8639999999999000 :: int) \<le> 8640000000000000 + 120 * 1000
   \<and> \<not> isDueNow 8639999999999000 8640000000000000
   \<and> \<not> dueFilter 8639999999999000 (pay_rent\<lparr>due_date := 8640000000000000\<rparr>)"
  by (simp add: dueFilter_def isDueNow_def windowStart_def windowEnd_def new_Date_def)

text \<open>
  Claim C1, amended. A reminder passes the due test of an evaluation pass exactly when it
  is neither completed nor already notified, both bounds \<open>dueAt - 120 s\<close> and
  \<open>dueAt + 120 s\<close> lie in the Date range, and \<open>dueAt - 120 s \<le> now \<le> dueAt + 120 s\<close>,
  both ends included. A reminder whose rows all lie outside the window, or have a bound
  outside the Date range, is not fired: the pass makes no channel call for it and does
  not update it, however long it is overdue.
  A reminder that passes the test, of a profile that the pass reaches, is fired: the pass
  calls every enabled channel for it.
\<close>

theorem due_window_within_date_range:
  "(isDueNow t d \<longleftrightarrow> window_in_range d \<and> d - 120 * 1000 \<le> t \<and> t \<le> d + 120 * 1000)
   \<and> (dueFilter t r \<longleftrightarrow>
        \<not> is_completed r \<and> \<not> notification_sent r \<and> window_in_range (due_date r)
        \<and> due_date r - 120 * 1000 \<le> t \<and> t \<le> due_date r + 120 * 1000)
   \<and> ((\<forall>x\<in>set (reminders st). reminder_id x = i \<longrightarrow>
          \<not> window_in_range (due_date x)
          \<or> now env < due_date x - 120 * 1000 \<or> due_date x + 120 * 1000 < now env)
        \<longrightarrow> list_all (not_for i) (new_calls st (checkAndSendReminderNotifications env st)))
   \<and> (pass_reaches env st ps p r \<longrightarrow>
        (browserNotificationsEnabled p \<longrightarrow>
           browser_call r \<in> set (new_calls st (checkAndSendReminderNotifications env st)))
        \<and> (emailNotificationsEnabled p \<longrightarrow>
             email_call p (firstName_of p) r \<in> set (new_calls st (checkAndSendReminderNotifications env st)))
        \<and> (\<not> emailNotificationsEnabled p \<longrightarrow>
             update_call r \<in> set (new_calls st (checkAndSendReminderNotifications env st))))"
proof -
  have b: "dueFilter t r \<longleftrightarrow>
        \<not> is_completed r \<and> \<not> notification_sent r \<and> window_in_range (due_date r)
        \<and> due_date r - 120 * 1000 \<le> t \<and> t \<le> due_date r + 120 * 1000" for t r
    by (auto simp: dueFilter_def isDueNow_iff)
  have c: "list_all (not_for i) (new_calls st (checkAndSendReminderNotifications env st))"
    if "\<forall>x\<in>set (reminders st). reminder_id x = i \<longrightarrow>
          \<not> window_in_range (due_date x)
          \<or> now env < due_date x - 120 * 1000 \<or> due_date x + 120 * 1000 < now env"
    by (rule pass_calls_only_for_due) (use that in \<open>auto simp: b\<close>)
  have d: "(browserNotificationsEnabled p \<longrightarrow>
           browser_call r \<in> set (new_calls st (checkAndSendReminderNotifications env st)))
        \<and> (emailNotificationsEnabled p \<longrightarrow>
             email_call p (firstName_of p) r \<in> set (new_calls st (checkAndSendReminderNotifications env st)))
        \<and> (\<not> emailNotificationsEnabled p \<longrightarrow>
             update_call r \<in> set (new_calls st (checkAndSendReminderNotifications env st)))"
    if "pass_reaches env st ps p r"
  proof -
    from pass_reaches_fires[OF that] obtain xs pops zs where
      "new_calls st (checkAndSendReminderNotifications env st)
         = xs @ reminder_calls env p (firstName_of p) (emailNotificationsEnabled p)
                  (browserNotificationsEnabled p) r pops @ zs"
      by (elim exE conjE)
    then show ?thesis
      using reminder_calls_members[of "browserNotificationsEnabled p" r xs env p "firstName_of p"
          "emailNotificationsEnabled p" pops zs]
      by simp
  qed
  from isDueNow_iff[of t d] b[of t r] c d show ?thesis by blast
qed

theorem due_window_within_date_range_witness:
  "reminders (initial_state [pay_rent]) = [pay_rent]
   \<and> due_date pay_rent + 120 * 1000 < now (browser_env\<lparr>now := 1200000\<rparr>)
   \<and> list_all (not_for ''r1'')
        (new_calls (initial_state [pay_rent])
           (checkAndSendReminderNotifications (browser_env\<lparr>now := 1200000\<rparr>) (initial_state [pay_rent])))
   \<and> pass_reaches (browser_env\<lparr>now := 1000000 + 120 * 1000\<rparr>) (initial_state [pay_rent, call_home])
        [ada, bob] bob call_home
   \<and> browserNotificationsEnabled bob \<and> \<not> emailNotificationsEnabled bob
   \<and> browser_call call_home
        \<in> set (new_calls (initial_state [pay_rent, call_home])
                 (checkAndSendReminderNotifications (browser_env\<lparr>now := 1000000 + 120 * 1000\<rparr>)
                    (initial_state [pay_rent, call_home])))
   \<and> update_call call_home
        \<in> set (new_calls (initial_state [pay_rent, call_home])
                 (checkAndSendReminderNotifications (browser_env\<lparr>now := 1000000 + 120 * 1000\<rparr>)
                    (initial_state [pay_rent, call_home])))
   \<and> isDueNow (1000000 + 120 * 1000) 1000000
   \<and> \<not> isDueNow (1000000 + 120 * 1000 + 1) 1000000
   \<and> isDueNow (1000000 - 120 * 1000) 1000000
   \<and> \<not> isDueNow (1000000 - 120 * 1000 - 1) 1000000"
proof -
  note T1 = due_window_within_date_range
      [where st = "initial_state [pay_rent]" and i = "''r1''" and env = "browser_env\<lparr>now := 1200000\<rparr>"
         and t = 0 and d = 0 and r = pay_rent and ps = "[]" and p = ada]
  note T2 = due_window_within_date_range
      [where st = "initial_state [pay_rent, call_home]" and i = "''r2''"
         and env = "browser_env\<lparr>now := 1000000 + 120 * 1000\<rparr>"
         and t = 0 and d = 0 and r = call_home and ps = "[ada, bob]" and p = bob]
  have h: "\<forall>x\<in>set (reminders (initial_state [pay_rent])). reminder_id x = ''r1'' \<longrightarrow>
       \<not> window_in_range (due_date x)
       \<or> now (browser_env\<lparr>now := 1200000\<rparr>) < due_date x - 120 * 1000
       \<or> due_date x + 120 * 1000 < now (browser_env\<lparr>now := 1200000\<rparr>)"
    by (simp add: initial_state_def pay_rent_def browser_env_def)
  have c: "reminders (initial_state [pay_rent]) = [pay_rent]"
    "due_date pay_rent + 120 * 1000 < now (browser_env\<lparr>now := 1200000\<rparr>)"
    by (simp_all add: initial_state_def pay_rent_def browser_env_def)
  from T1[THEN conjunct2, THEN conjunct2, THEN conjunct1, THEN mp, OF h]
  have n: "list_all (not_for ''r1'')
        (new_calls (initial_state [pay_rent])
           (checkAndSendReminderNotifications (browser_env\<lparr>now := 1200000\<rparr>) (initial_state [pay_rent])))" .
  have pr: "pass_reaches (browser_env\<lparr>now := 1000000 + 120 * 1000\<rparr>) (initial_state [pay_rent, call_home])
        [ada, bob] bob call_home"
    by code_simp
  have fl: "browserNotificationsEnabled bob" "\<not> emailNotificationsEnabled bob"
    by code_simp+
  note f = T2[THEN conjunct2, THEN conjunct2, THEN conjunct2, THEN mp, OF pr]
  from f fl have f1: "browser_call call_home
        \<in> set (new_calls (initial_state [pay_rent, call_home])
                 (checkAndSendReminderNotifications (browser_env\<lparr>now := 1000000 + 120 * 1000\<rparr>)
                    (initial_state [pay_rent, call_home])))"
    and f2: "update_call call_home
        \<in> set (new_calls (initial_state [pay_rent, call_home])
                 (checkAndSendReminderNotifications (browser_env\<lparr>now := 1000000 + 120 * 1000\<rparr>)
                    (initial_state [pay_rent, call_home])))"
    by blast+
  have w: "isDueNow (1000000 + 120 * 1000) 1000000" "\<not> isDueNow (1000000 + 120 * 1000 + 1) 1000000"
      "isDueNow (1000000 - 120 * 1000) 1000000" "\<not> isDueNow (1000000 - 120 * 1000 - 1) 1000000"
    by (simp_all add: due_window_within_date_range[THEN conjunct1] window_in_range_def)
  from c n pr fl f1 f2 w show ?thesis
    by (intro conjI)
qed

section \<open>Completed and already notified reminders\<close>

text \<open>
  Claim C5. A reminder that is completed, or whose notification was already sent, never
  passes the due filter, whatever its due date. When every row with a given id is completed
  or already notified, an evaluation pass makes no call on behalf of that reminder (no
  browser call, no email, no system notification) and issues no update for it.
\<close>

theorem completed_or_sent_never_notified:
  "((is_completed r \<or> notification_sent r) \<longrightarrow> \<not> dueFilter t r \<and> r \<notin> set (dueReminders t rs))
   \<and> ((\<forall>x\<in>set (reminders st). reminder_id x = i \<longrightarrow> is_completed x \<or> notification_sent x)
        \<longrightarrow> list_all (not_for i) (new_calls st (checkAndSendReminderNotifications env st)))"
proof -
  have a: "\<not> dueFilter t r \<and> r \<notin> set (dueReminders t rs)" if "is_completed r \<or> notification_sent r"
    using that by (simp add: dueFilter_def dueReminders_def)
  have c: "list_all (not_for i) (new_calls st (checkAndSendReminderNotifications env st))"
    if "\<forall>x\<in>set (reminders st). reminder_id x = i \<longrightarrow> is_completed x \<or> notification_sent x"
    by (rule pass_calls_only_for_due) (use that in \<open>auto simp: dueFilter_def\<close>)
  from a c show ?thesis by blast
qed

theorem completed_or_sent_never_notified_witness:
  "(is_completed (pay_rent\<lparr>is_completed := True\<rparr>) \<or> notification_sent (pay_rent\<lparr>is_completed := True\<rparr>))
   \<and> \<not> dueFilter 1000000 (pay_rent\<lparr>is_completed := True\<rparr>)
   \<and> reminders (initial_state [call_home\<lparr>notification_sent := True\<rparr>])
        = [call_home\<lparr>notification_sent := True\<rparr>]
   \<and> notification_sent (call_home\<lparr>notification_sent := True\<rparr>)
   \<and> list_all (not_for ''r2'')
        (new_calls (initial_state [call_home\<lparr>notification_sent := True\<rparr>])
           (checkAndSendReminderNotifications browser_env
              (initial_state [call_home\<lparr>notification_sent := True\<rparr>])))"
proof -
  have h1: "is_completed (pay_rent\<lparr>is_completed := True\<rparr>) \<or> notification_sent (pay_rent\<lparr>is_completed := True\<rparr>)"
    by simp
  have h2: "\<forall>x\<in>set (reminders (initial_state [call_home\<lparr>notification_sent := True\<rparr>])).
         reminder_id x = ''r2'' \<longrightarrow> is_completed x \<or> notification_sent x"
    by (simp add: initial_state_def)
  have c: "reminders (initial_state [call_home\<lparr>notification_sent := True\<rparr>])
        = [call_home\<lparr>notification_sent := True\<rparr>]
      \<and> notification_sent (call_home\<lparr>notification_sent := True\<rparr>)"
    by (simp add: initial_state_def)
  from h1 h2 c
    completed_or_sent_never_notified
      [where r = "pay_rent\<lparr>is_completed := True\<rparr>" and t = 1000000
         and st = "initial_state [call_home\<lparr>notification_sent := True\<rparr>]"
         and i = "''r2''" and env = browser_env]
  show ?thesis by blast
qed

section \<open>Profiles with every channel switched off\<close>

text \<open>
  Claim C7. A profile whose two preference flags are both false is skipped entirely: the
  loop body leaves the state as it was, so no reminder query is issued and no channel is
  called for it. A pass over a list of profiles is the pass over the profiles that have a
  channel enabled.
\<close>

theorem disabled_profile_is_skipped:
  "(\<not> emailNotificationsEnabled p \<and> \<not> browserNotificationsEnabled p \<longrightarrow>
      profile_body env p st = (None, st)
      \<and> profiles_loop env (p # rest) st = profiles_loop env rest st)
   \<and> profiles_loop env ps st =
       profiles_loop env (filter (\<lambda>p. emailNotificationsEnabled p \<or> browserNotificationsEnabled p) ps) st"
  using profiles_loop_filter[of env ps st] by (simp add: profile_body_disabled)

theorem disabled_profile_is_skipped_witness:
  "\<not> emailNotificationsEnabled eve \<and> \<not> browserNotificationsEnabled eve
   \<and> profile_body browser_env eve (initial_state [pay_rent]) = (None, initial_state [pay_rent])
   \<and> profiles_loop browser_env [eve] (initial_state [pay_rent]) = (None, initial_state [pay_rent])"
proof -
  have h: "\<not> emailNotificationsEnabled eve \<and> \<not> browserNotificationsEnabled eve"
    by (simp add: emailNotificationsEnabled_def browserNotificationsEnabled_def
        preference_flag_def eve_def)
  from h disabled_profile_is_skipped
         [where p = eve and env = browser_env and st = "initial_state [pay_rent]" and rest = "[]"]
  show ?thesis by simp
qed

section \<open>Missing preferences\<close>

text \<open>
  Claim C9. When the preferences of a profile are absent, null, or an object without the
  keys \<^verbatim>\<open>email_notifications\<close> and \<^verbatim>\<open>browser_notifications\<close>, both flags are false and the
  pass skips the profile, exactly as it does for a profile that has both keys set to
  false.
\<close>

theorem missing_preferences_count_as_disabled:
  "(preferences p = None \<or> preferences p = Some JNull
     \<or> (\<exists>kvs. preferences p = Some (JObj kvs)
           \<and> map_of kvs ''email_notifications'' = None \<and> map_of kvs ''browser_notifications'' = None))
   \<longrightarrow> \<not> emailNotificationsEnabled p \<and> \<not> browserNotificationsEnabled p
       \<and> profile_body env p st = (None, st)
       \<and> profile_body env p st = profile_body env (p\<lparr>preferences := Some all_disabled\<rparr>) st"
proof
  assume a: "preferences p = None \<or> preferences p = Some JNull
     \<or> (\<exists>kvs. preferences p = Some (JObj kvs)
           \<and> map_of kvs ''email_notifications'' = None \<and> map_of kvs ''browser_notifications'' = None)"
  then have e: "\<not> emailNotificationsEnabled p"
    unfolding emailNotificationsEnabled_def by (intro preference_flag_missing) blast
  from a have b: "\<not> browserNotificationsEnabled p"
    unfolding browserNotificationsEnabled_def by (intro preference_flag_missing) blast
  have d: "\<not> emailNotificationsEnabled (p\<lparr>preferences := Some all_disabled\<rparr>)"
      "\<not> browserNotificationsEnabled (p\<lparr>preferences := Some all_disabled\<rparr>)"
    by (simp_all add: emailNotificationsEnabled_def browserNotificationsEnabled_def
        preference_flag_def all_disabled_def)
  show "\<not> emailNotificationsEnabled p \<and> \<not> browserNotificationsEnabled p
       \<and> profile_body env p st = (None, st)
       \<and> profile_body env p st = profile_body env (p\<lparr>preferences := Some all_disabled\<rparr>) st"
    using e b d by (simp add: profile_body_disabled)
qed

theorem missing_preferences_count_as_disabled_witness:
  "(preferences eve = None \<or> preferences eve = Some JNull
     \<or> (\<exists>kvs. preferences eve = Some (JObj kvs)
           \<and> map_of kvs ''email_notifications'' = None \<and> map_of kvs ''browser_notifications'' = None))
   \<and> profile_body browser_env eve (initial_state [pay_rent]) = (None, initial_state [pay_rent])
   \<and> profile_body browser_env (eve\<lparr>preferences := None\<rparr>) (initial_state [pay_rent])
       = (None, initial_state [pay_rent])
   \<and> profile_body browser_env (eve\<lparr>preferences := Some JNull\<rparr>) (initial_state [pay_rent])
       = (None, initial_state [pay_rent])"
proof -
  have h: "preferences eve = None \<or> preferences eve = Some JNull
     \<or> (\<exists>kvs. preferences eve = Some (JObj kvs)
           \<and> map_of kvs ''email_notifications'' = None \<and> map_of kvs ''browser_notifications'' = None)"
    by (simp add: eve_def)
  from h missing_preferences_count_as_disabled[where p = eve and env = browser_env and st = "initial_state [pay_rent]"]
    missing_preferences_count_as_disabled
      [where p = "eve\<lparr>preferences := None\<rparr>" and env = browser_env and st = "initial_state [pay_rent]"]
    missing_preferences_count_as_disabled
      [where p = "eve\<lparr>preferences := Some JNull\<rparr>" and env = browser_env and st = "initial_state [pay_rent]"]
  show ?thesis by simp
qed

section \<open>Email as the active channel\<close>

text \<open>
  Claim C3. For a due reminder that an evaluation pass reaches, of a profile with the email
  preference enabled, the pass sends the email and issues the update of
  \<^verbatim>\<open>notification_sent\<close> if and only if the email adapter reports success; when the update
  goes through, the row of the reminder has \<open>notification_sent = True\<close> after the pass.
  When the adapter reports a failure, no update is issued and the row is in the table as
  it was, with the flag false; a later pass that reaches the reminder, from the state the
  failed pass left or from any other state in which the row still passes the due filter,
  sends the email again. (A row that another writer has marked in the meantime no longer
  passes the filter; see the writers of the flag.)
\<close>

theorem email_success_gates_the_flag:
  "pass_reaches env st ps p r \<and> emailNotificationsEnabled p \<longrightarrow>
     email_call p (firstName_of p) r \<in> set (new_calls st (checkAndSendReminderNotifications env st))
     \<and> (update_call r \<in> set (new_calls st (checkAndSendReminderNotifications env st))
          \<longleftrightarrow> success (email_outcome env p (firstName_of p) r))
     \<and> (success (email_outcome env p (firstName_of p) r) \<and> update_fault env (reminder_id r) = NoFault \<longrightarrow>
          r\<lparr>notification_sent := True\<rparr> \<in> set (reminders (checkAndSendReminderNotifications env st))
          \<and> (\<forall>x\<in>set (reminders (checkAndSendReminderNotifications env st)).
                reminder_id x = reminder_id r \<longrightarrow> notification_sent x = True))
     \<and> (\<not> success (email_outcome env p (firstName_of p) r) \<longrightarrow>
          r \<in> set (reminders (checkAndSendReminderNotifications env st))
          \<and> (\<forall>x\<in>set (reminders (checkAndSendReminderNotifications env st)).
                reminder_id x = reminder_id r \<longrightarrow> notification_sent x = False)
          \<and> (\<forall>env2 ps2.
                pass_reaches env2 (checkAndSendReminderNotifications env st) ps2 p r \<longrightarrow>
                email_call p (firstName_of p) r
                  \<in> set (new_calls (checkAndSendReminderNotifications env st)
                           (checkAndSendReminderNotifications env2
                              (checkAndSendReminderNotifications env st)))))
     \<and> (\<forall>env2 st2 ps2.
           pass_reaches env2 st2 ps2 p r \<longrightarrow>
           email_call p (firstName_of p) r
             \<in> set (new_calls st2 (checkAndSendReminderNotifications env2 st2)))"
proof (intro impI, elim conjE)
  assume pr: "pass_reaches env st ps p r" and em: "emailNotificationsEnabled p"
  let ?st' = "checkAndSendReminderNotifications env st"
  let ?ok = "success (email_outcome env p (firstName_of p) r)"
  have again: "email_call p (firstName_of p) r
             \<in> set (new_calls st2 (checkAndSendReminderNotifications env2 st2))"
    if "pass_reaches env2 st2 ps2 p r" for env2 st2 ps2
  proof -
    from pass_reaches_fires[OF that] obtain xs pops zs where
      "new_calls st2 (checkAndSendReminderNotifications env2 st2)
         = xs @ reminder_calls env2 p (firstName_of p) (emailNotificationsEnabled p)
                  (browserNotificationsEnabled p) r pops @ zs"
      by (elim exE conjE)
    then show ?thesis
      using reminder_calls_members[of "browserNotificationsEnabled p" r xs env2 p "firstName_of p"
          "emailNotificationsEnabled p" pops zs] em
      by simp
  qed
  from pass_reaches_fires[OF pr] obtain xs pops zs where
    seg: "new_calls st ?st'
         = xs @ reminder_calls env p (firstName_of p) (emailNotificationsEnabled p)
                  (browserNotificationsEnabled p) r pops @ zs"
    and flag: "(emailNotificationsEnabled p \<longrightarrow> ?ok) \<and> update_fault env (reminder_id r) = NoFault
           \<longrightarrow> r\<lparr>notification_sent := True\<rparr> \<in> set (reminders ?st')"
    by (elim exE conjE)
  note mem = reminder_calls_members[of "browserNotificationsEnabled p" r xs env p "firstName_of p"
          "emailNotificationsEnabled p" pops zs, folded seg]
  have c1: "email_call p (firstName_of p) r \<in> set (new_calls st ?st')"
    using mem em by simp
  have c2a: "update_call r \<in> set (new_calls st ?st')" if ?ok
    using mem em that by simp
  have c2b: "update_call r \<notin> set (new_calls st ?st')" if "\<not> ?ok"
    using pass_reaches_keeps[OF pr em that] by simp
  have d: "distinct (map reminder_id (reminders st))"
    using pr by (simp add: pass_reaches_def)
  then have d': "distinct (map reminder_id (reminders ?st'))"
    by (simp add: pass_ids)
  have c3: "r\<lparr>notification_sent := True\<rparr> \<in> set (reminders ?st')
          \<and> (\<forall>x\<in>set (reminders ?st'). reminder_id x = reminder_id r \<longrightarrow> notification_sent x = True)"
    if "?ok \<and> update_fault env (reminder_id r) = NoFault"
  proof -
    from flag that have "r\<lparr>notification_sent := True\<rparr> \<in> set (reminders ?st')" by simp
    with sent_row_only[OF d' this] show ?thesis by simp
  qed
  have ns: "\<not> notification_sent r"
    using pr by (simp add: pass_reaches_def dueFilter_def split: if_splits)
  have c4: "r \<in> set (reminders ?st')
          \<and> (\<forall>x\<in>set (reminders ?st'). reminder_id x = reminder_id r \<longrightarrow> notification_sent x = False)"
    if "\<not> ?ok"
  proof -
    from pass_reaches_keeps[OF pr em that] have rin: "r \<in> set (reminders ?st')" by simp
    have "notification_sent x = False" if x: "x \<in> set (reminders ?st')" "reminder_id x = reminder_id r" for x
    proof -
      from d' x(1) rin x(2) have "x = r" by (rule distinct_map_same)
      with ns show ?thesis by simp
    qed
    with rin show ?thesis by blast
  qed
  from c1 c2a c2b c3 c4 again
  show "email_call p (firstName_of p) r \<in> set (new_calls st ?st')
     \<and> (update_call r \<in> set (new_calls st ?st') \<longleftrightarrow> ?ok)
     \<and> (?ok \<and> update_fault env (reminder_id r) = NoFault \<longrightarrow>
          r\<lparr>notification_sent := True\<rparr> \<in> set (reminders ?st')
          \<and> (\<forall>x\<in>set (reminders ?st'). reminder_id x = reminder_id r \<longrightarrow> notification_sent x = True))
     \<and> (\<not> ?ok \<longrightarrow>
          r \<in> set (reminders ?st')
          \<and> (\<forall>x\<in>set (reminders ?st'). reminder_id x = reminder_id r \<longrightarrow> notification_sent x = False)
          \<and> (\<forall>env2 ps2.
                pass_reaches env2 ?st' ps2 p r \<longrightarrow>
                email_call p (firstName_of p) r
                  \<in> set (new_calls ?st' (checkAndSendReminderNotifications env2 ?st'))))
     \<and> (\<forall>env2 st2 ps2.
           pass_reaches env2 st2 ps2 p r \<longrightarrow>
           email_call p (firstName_of p) r
             \<in> set (new_calls st2 (checkAndSendReminderNotifications env2 st2)))"
    by blast
qed

theorem email_success_gates_the_flag_witness:
  "pass_reaches mail_down_env (initial_state [pay_rent, call_home]) [ada, bob] ada pay_rent
   \<and> emailNotificationsEnabled ada
   \<and> \<not> success (email_outcome mail_down_env ada (firstName_of ada) pay_rent)
   \<and> pay_rent \<in> set (reminders (checkAndSendReminderNotifications mail_down_env
                                   (initial_state [pay_rent, call_home])))
   \<and> update_call pay_rent
        \<notin> set (new_calls (initial_state [pay_rent, call_home])
                 (checkAndSendReminderNotifications mail_down_env (initial_state [pay_rent, call_home])))
   \<and> pass_reaches (mail_down_env\<lparr>now := 1090000\<rparr>)
        (checkAndSendReminderNotifications mail_down_env (initial_state [pay_rent, call_home]))
        [ada, bob] ada pay_rent
   \<and> email_call ada (firstName_of ada) pay_rent
        \<in> set (new_calls
                 (checkAndSendReminderNotifications mail_down_env (initial_state [pay_rent, call_home]))
                 (checkAndSendReminderNotifications (mail_down_env\<lparr>now := 1090000\<rparr>)
                    (checkAndSendReminderNotifications mail_down_env (initial_state [pay_rent, call_home]))))
   \<and> pass_reaches browser_env (initial_state [pay_rent, call_home]) [ada, bob] ada pay_rent
   \<and> success (email_outcome browser_env ada (firstName_of ada) pay_rent)
   \<and> update_fault browser_env (reminder_id pay_rent) = NoFault
   \<and> update_call pay_rent
        \<in> set (new_calls (initial_state [pay_rent, call_home])
                 (checkAndSendReminderNotifications browser_env (initial_state [pay_rent, call_home])))
   \<and> pay_rent\<lparr>notification_sent := True\<rparr>
        \<in> set (reminders (checkAndSendReminderNotifications browser_env (initial_state [pay_rent, call_home])))"
proof -
  let ?st0 = "initial_state [pay_rent, call_home]"
  let ?st1 = "checkAndSendReminderNotifications mail_down_env ?st0"
  have p1: "pass_reaches mail_down_env ?st0 [ada, bob] ada pay_rent"
    and em: "emailNotificationsEnabled ada"
    and f1: "\<not> success (email_outcome mail_down_env ada (firstName_of ada) pay_rent)"
    and p2: "pass_reaches (mail_down_env\<lparr>now := 1090000\<rparr>) ?st1 [ada, bob] ada pay_rent"
    and p3: "pass_reaches browser_env ?st0 [ada, bob] ada pay_rent"
    and s3: "success (email_outcome browser_env ada (firstName_of ada) pay_rent)"
    and u3: "update_fault browser_env (reminder_id pay_rent) = NoFault"
    by code_simp+
  note A = email_success_gates_the_flag
      [where env = mail_down_env and st = ?st0 and ps = "[ada, bob]" and p = ada and r = pay_rent,
       THEN mp, OF conjI[OF p1 em]]
  note B = email_success_gates_the_flag
      [where env = browser_env and st = ?st0 and ps = "[ada, bob]" and p = ada and r = pay_rent,
       THEN mp, OF conjI[OF p3 em]]
  from A f1 have a1: "update_call pay_rent \<notin> set (new_calls ?st0 ?st1)"
    by blast
  note A4 = A[THEN conjunct2, THEN conjunct2, THEN conjunct2, THEN conjunct1, THEN mp, OF f1]
  from A4 have a2: "pay_rent \<in> set (reminders ?st1)"
    by (rule conjunct1)
  from A4[THEN conjunct2, THEN conjunct2, THEN spec, THEN spec, THEN mp, OF p2]
  have a3: "email_call ada (firstName_of ada) pay_rent
        \<in> set (new_calls ?st1 (checkAndSendReminderNotifications (mail_down_env\<lparr>now := 1090000\<rparr>) ?st1))" .
  from B s3 have b1: "update_call pay_rent
        \<in> set (new_calls ?st0 (checkAndSendReminderNotifications browser_env ?st0))"
    by blast
  from B[THEN conjunct2, THEN conjunct2, THEN conjunct1, THEN mp, OF conjI[OF s3 u3], THEN conjunct1]
  have b2: "pay_rent\<lparr>notification_sent := True\<rparr>
        \<in> set (reminders (checkAndSendReminderNotifications browser_env ?st0))" .
  from p1 em f1 a2 a1 p2 a3 p3 s3 u3 b1 b2 show ?thesis
    by (intro conjI)
qed

section \<open>Browser as the only channel\<close>

text \<open>
  Claim C4. For a due reminder that an evaluation pass reaches, of a profile with the email
  preference off and the browser preference on, the pass calls the browser channel and
  then issues the update of \<^verbatim>\<open>notification_sent\<close>, whatever the browser channel did (the
  statement puts no condition on support, permission or focus). When the update goes
  through, the row of the reminder has \<open>notification_sent = True\<close> after the pass.
\<close>

theorem browser_only_marks_unconditionally:
  "pass_reaches env st ps p r \<and> \<not> emailNotificationsEnabled p \<and> browserNotificationsEnabled p \<longrightarrow>
     (\<exists>xs pops zs. list_all (is_popup (OfReminder (reminder_id r))) pops
        \<and> new_calls st (checkAndSendReminderNotifications env st)
             = xs @ browser_call r # pops @ update_call r # zs)
     \<and> (update_fault env (reminder_id r) = NoFault \<longrightarrow>
          r\<lparr>notification_sent := True\<rparr> \<in> set (reminders (checkAndSendReminderNotifications env st))
          \<and> (\<forall>x\<in>set (reminders (checkAndSendReminderNotifications env st)).
                reminder_id x = reminder_id r \<longrightarrow> notification_sent x = True))"
proof (intro impI, elim conjE)
  assume pr: "pass_reaches env st ps p r" and em: "\<not> emailNotificationsEnabled p"
    and br: "browserNotificationsEnabled p"
  let ?st' = "checkAndSendReminderNotifications env st"
  from pass_reaches_fires[OF pr] em br
  have seg: "\<exists>xs pops zs. list_all (is_popup (OfReminder (reminder_id r))) pops
        \<and> new_calls st ?st' = xs @ browser_call r # pops @ update_call r # zs"
    and flag: "update_fault env (reminder_id r) = NoFault
           \<longrightarrow> r\<lparr>notification_sent := True\<rparr> \<in> set (reminders ?st')"
    by (simp_all add: reminder_calls_def)
  have d': "distinct (map reminder_id (reminders ?st'))"
    using pr by (simp add: pass_ids pass_reaches_def)
  have "r\<lparr>notification_sent := True\<rparr> \<in> set (reminders ?st')
          \<and> (\<forall>x\<in>set (reminders ?st'). reminder_id x = reminder_id r \<longrightarrow> notification_sent x = True)"
    if "update_fault env (reminder_id r) = NoFault"
  proof -
    from flag that have "r\<lparr>notification_sent := True\<rparr> \<in> set (reminders ?st')" by simp
    with sent_row_only[OF d' this] show ?thesis by simp
  qed
  with seg show "(\<exists>xs pops zs. list_all (is_popup (OfReminder (reminder_id r))) pops
        \<and> new_calls st ?st' = xs @ browser_call r # pops @ update_call r # zs)
     \<and> (update_fault env (reminder_id r) = NoFault \<longrightarrow>
          r\<lparr>notification_sent := True\<rparr> \<in> set (reminders ?st')
          \<and> (\<forall>x\<in>set (reminders ?st'). reminder_id x = reminder_id r \<longrightarrow> notification_sent x = True))"
    by blast
qed

theorem browser_only_marks_unconditionally_witness:
  "pass_reaches (browser_env\<lparr>notification_permission := Denied\<rparr>)
     (initial_state [pay_rent, call_home]) [ada, bob] bob call_home
   \<and> \<not> emailNotificationsEnabled bob \<and> browserNotificationsEnabled bob
   \<and> update_fault (browser_env\<lparr>notification_permission := Denied\<rparr>) (reminder_id call_home) = NoFault
   \<and> (\<exists>xs pops zs. list_all (is_popup (OfReminder (reminder_id call_home))) pops
        \<and> new_calls (initial_state [pay_rent, call_home])
             (checkAndSendReminderNotifications (browser_env\<lparr>notification_permission := Denied\<rparr>)
                (initial_state [pay_rent, call_home]))
            = xs @ browser_call call_home # pops @ update_call call_home # zs)
   \<and> call_home\<lparr>notification_sent := True\<rparr>
        \<in> set (reminders (checkAndSendReminderNotifications (browser_env\<lparr>notification_permission := Denied\<rparr>)
                            (initial_state [pay_rent, call_home])))"
proof -
  let ?env = "browser_env\<lparr>notification_permission := Denied\<rparr>"
  let ?st0 = "initial_state [pay_rent, call_home]"
  have pr: "pass_reaches ?env ?st0 [ada, bob] bob call_home"
    and em: "\<not> emailNotificationsEnabled bob" and br: "browserNotificationsEnabled bob"
    and u: "update_fault ?env (reminder_id call_home) = NoFault"
    by code_simp+
  note A = browser_only_marks_unconditionally
      [where env = ?env and st = ?st0 and ps = "[ada, bob]" and p = bob and r = call_home,
       THEN mp, OF conjI[OF pr conjI[OF em br]]]
  note a1 = A[THEN conjunct1]
  note a2 = A[THEN conjunct2, THEN mp, OF u, THEN conjunct1]
  from pr em br u a1 a2 show ?thesis
    by (intro conjI)
qed

section \<open>Idempotent start\<close>



section \<open>The browser channel\<close>

text \<open>
  Claim C10. When there is no window, no notification support, no granted permission, or
  the document has focus, \<^verbatim>\<open>showBrowserNotification\<close> creates no system notification and
  adds nothing to the in-app feed: the state is as it was, apart from the one console
  message for missing support. The feed only changes after a system notification was
  created: there is no in-app fallback for a suppressed popup.
\<close>

theorem browser_channel_has_no_in_app_fallback:
  "(popup_suppressed env \<longrightarrow>
      showBrowserNotification env t body st
        = (if window_defined env \<and> \<not> notification_in_window env
           then log NoDesktopNotificationSupport st else st)
      \<and> calls (showBrowserNotification env t body st) = calls st
      \<and> notifications (showBrowserNotification env t body st) = notifications st)
   \<and> (notifications (showBrowserNotification env t body st) \<noteq> notifications st \<longrightarrow>
        \<not> popup_suppressed env \<and> triggerNotification st
        \<and> notifications (showBrowserNotification env t body st) = feed_entry t body # notifications st
        \<and> (\<exists>rest. calls (showBrowserNotification env t body st)
                     = calls st @ (acting_for st, NewNotification t body) # rest))
   \<and> (\<not> popup_suppressed env \<and> \<not> notification_ctor_throws env \<and> triggerNotification st \<longrightarrow>
        notifications (showBrowserNotification env t body st) = feed_entry t body # notifications st)"
  by (auto simp: popup_suppressed_def showBrowserNotification_def addNotification_def Let_def
      emit_def log_def feed_entry_def)

theorem browser_channel_has_no_in_app_fallback_witness:
  "popup_suppressed (browser_env\<lparr>document_hasFocus := True\<rparr>)
   \<and> showBrowserNotification (browser_env\<lparr>document_hasFocus := True\<rparr>) ''Reminder: Pay rent'' ''now''
        (setNotificationTrigger (initial_state [pay_rent]))
       = setNotificationTrigger (initial_state [pay_rent])
   \<and> \<not> popup_suppressed browser_env \<and> \<not> notification_ctor_throws browser_env
   \<and> triggerNotification (setNotificationTrigger (initial_state [pay_rent]))
   \<and> notifications (showBrowserNotification browser_env ''Reminder: Pay rent'' ''now''
                      (setNotificationTrigger (initial_state [pay_rent])))
       = [feed_entry ''Reminder: Pay rent'' ''now'']"
proof -
  have h1: "popup_suppressed (browser_env\<lparr>document_hasFocus := True\<rparr>)"
    and n1: "\<not> (window_defined (browser_env\<lparr>document_hasFocus := True\<rparr>)
              \<and> \<not> notification_in_window (browser_env\<lparr>document_hasFocus := True\<rparr>))"
    by (simp_all add: popup_suppressed_def browser_env_def)
  have h2: "\<not> popup_suppressed browser_env \<and> \<not> notification_ctor_throws browser_env
      \<and> triggerNotification (setNotificationTrigger (initial_state [pay_rent]))"
    and n2: "notifications (setNotificationTrigger (initial_state [pay_rent])) = []"
    by (simp_all add: popup_suppressed_def browser_env_def setNotificationTrigger_def initial_state_def)
  from h1 browser_channel_has_no_in_app_fallback
      [where env = "browser_env\<lparr>document_hasFocus := True\<rparr>" and t = "''Reminder: Pay rent''"
         and body = "''now''" and st = "setNotificationTrigger (initial_state [pay_rent])"]
  have a: "showBrowserNotification (browser_env\<lparr>document_hasFocus := True\<rparr>) ''Reminder: Pay rent'' ''now''
        (setNotificationTrigger (initial_state [pay_rent]))
       = (if window_defined (browser_env\<lparr>document_hasFocus := True\<rparr>)
             \<and> \<not> notification_in_window (browser_env\<lparr>document_hasFocus := True\<rparr>)
          then log NoDesktopNotificationSupport (setNotificationTrigger (initial_state [pay_rent]))
          else setNotificationTrigger (initial_state [pay_rent]))"
    by blast
  have a': "showBrowserNotification (browser_env\<lparr>document_hasFocus := True\<rparr>) ''Reminder: Pay rent'' ''now''
        (setNotificationTrigger (initial_state [pay_rent]))
       = setNotificationTrigger (initial_state [pay_rent])"
    unfolding a using n1 by (rule if_not_P)
  from h2 browser_channel_has_no_in_app_fallback
      [where env = browser_env and t = "''Reminder: Pay rent''"
         and body = "''now''" and st = "setNotificationTrigger (initial_state [pay_rent])"]
  have "notifications (showBrowserNotification browser_env ''Reminder: Pay rent'' ''now''
                      (setNotificationTrigger (initial_state [pay_rent])))
       = feed_entry ''Reminder: Pay rent'' ''now'' # notifications (setNotificationTrigger (initial_state [pay_rent]))"
    by blast
  then have b: "notifications (showBrowserNotification browser_env ''Reminder: Pay rent'' ''now''
                      (setNotificationTrigger (initial_state [pay_rent])))
       = [feed_entry ''Reminder: Pay rent'' ''now'']"
    by (simp only: n2)
  from h1 a' h2 b show ?thesis by (intro conjI) blast+
qed

section \<open>Failure isolation\<close>


section \<open>Writers of the flag\<close>

text \<open>
  Claim C2 says that the scheduler is the only writer of \<^verbatim>\<open>notification_sent\<close> and the only
  component that delivers a reminder notification. \<^verbatim>\<open>checkReminders\<close> of
  \<^verbatim>\<open>NotificationContext\<close> does both: five minutes before a reminder is due, with no
  evaluation pass run and the reminder not yet due for the pass, it adds a reminder entry
  to the feed and sets the flag.
\<close>

theorem context_also_sets_the_flag:
  "passes (checkReminders early_env ''u1'' (initial_state [pay_rent])) = 0
   \<and> \<not> dueFilter (now early_env) pay_rent
   \<and> map notification_sent (reminders (initial_state [pay_rent])) = [False]
   \<and> map notification_sent (reminders (checkReminders early_env ''u1'' (initial_state [pay_rent]))) = [True]
   \<and> notifications (checkReminders early_env ''u1'' (initial_state [pay_rent])) = [context_entry pay_rent]
   \<and> update_call pay_rent \<in> set (calls (checkReminders early_env ''u1'' (initial_state [pay_rent])))"
  by code_simp

text \<open>
  Claim C2, amended. An evaluation pass writes the flag only by setting it: every row is
  as it was or has \<^verbatim>\<open>notification_sent\<close> set. Every update the pass issues is for a row
  that passed the due filter, and one loop iteration issues at most one update (exactly
  one when email is off or the email was reported sent). The pass is not the only writer:
  the loop of \<^verbatim>\<open>checkReminders\<close> adds a feed entry and sets the flag for a reminder that
  is due within the next ten minutes.
\<close>

theorem pass_only_sets_the_flag:
  "list_all2 marked (reminders st) (reminders (checkAndSendReminderNotifications env st))
   \<and> (\<forall>c\<in>set (new_calls st (checkAndSendReminderNotifications env st)).
         \<forall>i. snd c = UpdateNotificationSent i \<longrightarrow>
           (\<exists>x\<in>set (reminders st). reminder_id x = i \<and> dueFilter (now env) x))
   \<and> filter is_update (new_calls st (process_reminder env p f e b r st))
        = (if e \<longrightarrow> success (email_outcome env p f r) then [update_call r] else [])
   \<and> (0 < due_date r - now env \<and> due_date r - now env \<le> 600000
        \<and> \<not> notification_ctor_throws env \<and> update_fault env (reminder_id r) = NoFault \<longrightarrow>
        reminders (snd (checkReminders_loop env [r] st)) = map (mark_row (reminder_id r)) (reminders st)
        \<and> notifications (snd (checkReminders_loop env [r] st)) = context_entry r # notifications st
        \<and> passes (snd (checkReminders_loop env [r] st)) = passes st)"
  using pass_only_marks[of st env] pass_updates_only_due[of st env]
    process_reminder_updates[of st env p f e b r]
    checkReminders_loop_one[of r env st]
  by blast

theorem pass_only_sets_the_flag_witness:
  "0 < due_date pay_rent - now early_env \<and> due_date pay_rent - now early_env \<le> 600000
   \<and> \<not> notification_ctor_throws early_env \<and> update_fault early_env (reminder_id pay_rent) = NoFault
   \<and> reminders (snd (checkReminders_loop early_env [pay_rent] (initial_state [pay_rent])))
        = map (mark_row (reminder_id pay_rent)) (reminders (initial_state [pay_rent]))
   \<and> update_call pay_rent
        \<in> set (new_calls (initial_state [pay_rent])
                 (checkAndSendReminderNotifications browser_env (initial_state [pay_rent])))
   \<and> (\<exists>x\<in>set (reminders (initial_state [pay_rent])).
         reminder_id x = reminder_id pay_rent \<and> dueFilter (now browser_env) x)"
proof -
  have h1: "0 < due_date pay_rent - now early_env \<and> due_date pay_rent - now early_env \<le> 600000
      \<and> \<not> notification_ctor_throws early_env \<and> update_fault early_env (reminder_id pay_rent) = NoFault"
    by code_simp
  have h2: "update_call pay_rent
        \<in> set (new_calls (initial_state [pay_rent])
                 (checkAndSendReminderNotifications browser_env (initial_state [pay_rent])))"
    by code_simp
  have h3: "snd (update_call pay_rent) = UpdateNotificationSent (reminder_id pay_rent)"
    by (simp add: update_call_def)
  from h1 pass_only_sets_the_flag
      [where env = early_env and r = pay_rent and st = "initial_state [pay_rent]"
         and p = ada and f = "''Ada''" and e = True and b = False]
  have a: "reminders (snd (checkReminders_loop early_env [pay_rent] (initial_state [pay_rent])))
        = map (mark_row (reminder_id pay_rent)) (reminders (initial_state [pay_rent]))"
    by blast
  from h2 h3 pass_only_sets_the_flag
      [where env = browser_env and r = pay_rent and st = "initial_state [pay_rent]"
         and p = ada and f = "''Ada''" and e = True and b = False]
  have b: "\<exists>x\<in>set (reminders (initial_state [pay_rent])).
         reminder_id x = reminder_id pay_rent \<and> dueFilter (now browser_env) x"
    by blast
  from h1 h2 a b show ?thesis by blast
qed

end
